theory Spec2Isabelle
  imports Complex_Main "HOL-Library.Log_Nat" "HOL-Library.Sublist"
begin

section \<open>The image editor component\<close>

text \<open>
  A shallow embedding of \<^verbatim>\<open>src/components/image-editor.tsx\<close>: the React component
  \<^verbatim>\<open>ImageEditor\<close>, its \<^verbatim>\<open>useState\<close> variables and its event handlers. Every handler is
  a function from the state of the render it was created in (and the event) to the state
  after the setters it calls have been applied. The page adds to that state the one
  thing the browser keeps that the handlers depend on: which textarea has the focus.
\<close>

subsection \<open>JavaScript numbers\<close>

text \<open>
  A JavaScript number is a binary64 double. The finite doubles are rationals, and the
  sum or difference of two doubles is the exact result rounded to the nearest double,
  a tie going to the even significand. \<open>fl\<close> is that rounding, to 53 significant bits:
  \<open>ilog2 q\<close> is the exponent of the leading bit of \<open>q\<close>, and \<open>q\<close> is rounded to a
  multiple of \<open>2 powi (ilog2 q - 52)\<close>.

  The exponent is not bounded below, which is harmless for sums and differences: a sum
  of two doubles that falls below the normal range is a double itself and is not
  rounded at all. It is not bounded above either: overflow to an infinity, and with it
  the infinities and NaN, are left out. Pixel coordinates and zoom factors are far from
  \<open>2 powi 1024\<close>.
\<close>

definition round_even :: "rat \<Rightarrow> int" where
  "round_even t =
     (let n = \<lfloor>t\<rfloor>; d = t - of_int n
      in if d < 1/2 then n else if 1/2 < d then n + 1 else if even n then n else n + 1)"

definition ilog2 :: "rat \<Rightarrow> int" where
  "ilog2 q =
     (let (a, b) = quotient_of q; k = bitlen a - bitlen b
      in if 2 powi k \<le> q then k else k - 1)"

definition fl :: "rat \<Rightarrow> rat" where
  "fl q =
     (if q = 0 then 0
      else let e = ilog2 \<bar>q\<bar> - 52
           in of_int (round_even (q / 2 powi e)) * 2 powi e)"

text \<open>A number, by its value; \<open>+\<close> and \<open>-\<close> round, comparison is that of the values.\<close>

datatype double = Double (val: rat)

instantiation double :: "{plus, minus, ord}"
begin

definition plus_double :: "double \<Rightarrow> double \<Rightarrow> double" where
  "a + b = Double (fl (val a + val b))"

definition minus_double :: "double \<Rightarrow> double \<Rightarrow> double" where
  "a - b = Double (fl (val a - val b))"

definition less_eq_double :: "double \<Rightarrow> double \<Rightarrow> bool" where
  "a \<le> b \<longleftrightarrow> val a \<le> val b"

definition less_double :: "double \<Rightarrow> double \<Rightarrow> bool" where
  "a < b \<longleftrightarrow> val a < val b"

instance ..

end

text \<open>The number a decimal literal of the source denotes: \<^verbatim>\<open>0.1\<close> is \<open>js_number (1/10)\<close>.\<close>

definition js_number :: "rat \<Rightarrow> double" where
  "js_number q = Double (fl q)"

subsection \<open>Data\<close>

text \<open>\<^verbatim>\<open>{ x: number, y: number }\<close>, the value of cursorPosition, drawStart, dragStart.\<close>

record point =
  pt_x :: double
  pt_y :: double

text \<open>
  An entry of \<^verbatim>\<open>elements\<close>. The fields marked \<^verbatim>\<open>?\<close> in the source are optional.
  \<^verbatim>\<open>type\<close> is written from \<^verbatim>\<open>selectedTool!\<close>, an assertion the compiler erases, so at run
  time it holds whatever selectedTool holds, \<^verbatim>\<open>null\<close> included.
\<close>

record element =
  el_type :: "string option"
  el_x :: double
  el_y :: double
  content :: "string option"
  width :: "double option"
  height :: "double option"
  isEditing :: "bool option"

text \<open>The \<^verbatim>\<open>useState\<close> variables the interaction handlers read and write.\<close>

record state =
  image_src :: "string option"
  selectedTool :: "string option"
  cursorPosition :: point
  elements :: "element list"
  isDrawing :: bool
  drawStart :: point
  activeElement :: "nat option"
  isDragging :: bool
  dragStart :: point

text \<open>The \<^verbatim>\<open>useState\<close> variables of the presentation panel and the zoom buttons.\<close>

record presentation =
  padding :: double
  inset :: double
  rounded :: double
  shadow :: double
  background :: string
  ratio :: string
  zoom :: double

text \<open>The part of a \<^verbatim>\<open>React.MouseEvent\<close> and of a \<^verbatim>\<open>DOMRect\<close> the handlers read.\<close>

record mouse_event =
  clientX :: double
  clientY :: double

record rect =
  rect_left :: double
  rect_top :: double

text \<open>
  The \<^verbatim>\<open>div\<close> that \<^verbatim>\<open>editedImageRef\<close> points to, the composed subtree: its bounding
  rectangle (the browser's layout), its inline style, and its children (the image or
  the upload prompt, one positioned \<^verbatim>\<open>div\<close> per element, with a border on the active
  one, and the placeholder that follows the pointer while the text tool is selected).
  The scale factor of \<^verbatim>\<open>transform: scale(${zoom})\<close> is kept as the number it prints.
\<close>

record html_div =
  boundingClientRect :: rect
  style_padding :: double
  style_backgroundColor :: string
  style_transform_scale :: double
  style_cursor :: string
  img_src :: "string option"
  img_borderRadius :: double
  img_boxShadow :: double
  overlay :: "element list"
  overlay_active :: "nat option"
  placeholder :: "point option"

datatype error = TypeError | Rejected

text \<open>The state of the first render: the arguments of the \<^verbatim>\<open>useState\<close> calls.\<close>

definition initial_state :: state where
  "initial_state =
     \<lparr>image_src = None, selectedTool = None,
      cursorPosition = \<lparr>pt_x = js_number 0, pt_y = js_number 0\<rparr>,
      elements = [], isDrawing = False,
      drawStart = \<lparr>pt_x = js_number 0, pt_y = js_number 0\<rparr>,
      activeElement = None, isDragging = False,
      dragStart = \<lparr>pt_x = js_number 0, pt_y = js_number 0\<rparr>\<rparr>"

definition initial_presentation :: presentation where
  "initial_presentation =
     \<lparr>padding = js_number 39, inset = js_number 0, rounded = js_number 16,
      shadow = js_number 27, background = ''#e0e0e0'', ratio = ''auto'', zoom = js_number 1\<rparr>"

subsection \<open>Tool selection\<close>

text \<open>\<^verbatim>\<open>!image\<close> holds for \<^verbatim>\<open>null\<close> and for the empty string.\<close>

definition falsy :: "string option \<Rightarrow> bool" where
  "falsy v = (case v of None \<Rightarrow> True | Some str \<Rightarrow> str = [])"

definition handleToolSelect :: "string \<Rightarrow> state \<Rightarrow> state" where
  "handleToolSelect tool s =
     (if falsy (image_src s) then s
      else s\<lparr>selectedTool := (if Some tool = selectedTool s then None else Some tool),
             activeElement := None\<rparr>)"

subsection \<open>Pointer handlers\<close>

text \<open>\<^verbatim>\<open>e.clientX - rect.left\<close>, \<^verbatim>\<open>e.clientY - rect.top\<close>: the pointer in the
  coordinates of the composed subtree.\<close>

definition pointer :: "html_div \<Rightarrow> mouse_event \<Rightarrow> point" where
  "pointer node e =
     (let rect = boundingClientRect node
      in \<lparr>pt_x = clientX e - rect_left rect, pt_y = clientY e - rect_top rect\<rparr>)"

text \<open>\<^verbatim>\<open>xs.map((el, i) => f(el, i))\<close>.\<close>

definition map_index :: "('a \<Rightarrow> nat \<Rightarrow> 'b) \<Rightarrow> 'a list \<Rightarrow> 'b list" where
  "map_index f xs = map (\<lambda>(i, el). f el i) (enumerate 0 xs)"

definition handleMouseMove :: "html_div option \<Rightarrow> mouse_event \<Rightarrow> state \<Rightarrow> state" where
  "handleMouseMove editedImageRef e s =
     (case editedImageRef of
        None \<Rightarrow> s
      | Some node \<Rightarrow>
          let p = pointer node e;
              s1 = s\<lparr>cursorPosition := p\<rparr>
          in if isDragging s \<and> activeElement s \<noteq> None then
               let dx = pt_x p - pt_x (dragStart s);
                   dy = pt_y p - pt_y (dragStart s)
               in s1\<lparr>elements :=
                        map_index (\<lambda>el i. if Some i = activeElement s
                                           then el\<lparr>el_x := el_x el + dx, el_y := el_y el + dy\<rparr>
                                           else el) (elements s),
                      dragStart := p\<rparr>
             else s1)"

definition handleMouseDown :: "html_div option \<Rightarrow> mouse_event \<Rightarrow> state \<Rightarrow> state" where
  "handleMouseDown editedImageRef e s =
     (case editedImageRef of
        None \<Rightarrow> s
      | Some node \<Rightarrow>
          let p = pointer node e
          in if selectedTool s = Some ''text'' then
               let newElement =
                     \<lparr>el_type = Some ''text'', el_x = pt_x p, el_y = pt_y p,
                      content = Some ''Text goes here'',
                      width = Some (js_number 200), height = Some (js_number 40),
                      isEditing = Some True\<rparr>
               in s\<lparr>elements := elements s @ [newElement],
                     activeElement := Some (length (elements s)),
                     selectedTool := None\<rparr>
             else if selectedTool s = Some ''arrow'' \<or> selectedTool s = Some ''square'' then
               s\<lparr>isDrawing := True, drawStart := p\<rparr>
             else if activeElement s \<noteq> None then
               s\<lparr>isDragging := True, dragStart := p\<rparr>
             else s)"

text \<open>
  The guard of \<^verbatim>\<open>handleMouseUp\<close> returns only when a draw is in progress; otherwise
  \<^verbatim>\<open>editedImageRef.current!.getBoundingClientRect()\<close> is evaluated, and on \<^verbatim>\<open>null\<close>
  it throws a TypeError.
\<close>

definition handleMouseUp :: "html_div option \<Rightarrow> mouse_event \<Rightarrow> state \<Rightarrow> error + state" where
  "handleMouseUp editedImageRef e s =
     (if isDrawing s \<and> editedImageRef = None then Inr s
      else case editedImageRef of
        None \<Rightarrow> Inl TypeError
      | Some node \<Rightarrow>
          let p = pointer node e;
              s1 = (if isDrawing s then
                      s\<lparr>elements := elements s @
                           [\<lparr>el_type = selectedTool s,
                             el_x = pt_x (drawStart s), el_y = pt_y (drawStart s),
                             content = None,
                             width = Some (pt_x p - pt_x (drawStart s)),
                             height = Some (pt_y p - pt_y (drawStart s)),
                             isEditing = None\<rparr>],
                         isDrawing := False,
                         selectedTool := None\<rparr>
                    else s)
          in Inr (s1\<lparr>isDragging := False\<rparr>))"

text \<open>
  The pointer-moves of a gesture, each with what the ref holds when it arrives.
\<close>

fun pointer_moves :: "(html_div option \<times> mouse_event) list \<Rightarrow> state \<Rightarrow> state" where
  "pointer_moves [] s = s"
| "pointer_moves ((ref, e) # ms) s = pointer_moves ms (handleMouseMove ref e s)"

subsection \<open>Text elements\<close>

definition handleElementClick :: "nat \<Rightarrow> state \<Rightarrow> state" where
  "handleElementClick index s = s\<lparr>activeElement := Some index\<rparr>"

text \<open>
  The three text handlers copy the array and assign a field of \<^verbatim>\<open>newElements[index]\<close>.
  Beyond the end of the array that is an assignment to a property of \<^verbatim>\<open>undefined\<close>,
  a TypeError. The assignment writes into the object the old array shares; the model
  replaces the entry of the new list, which is all the next render sees.
\<close>

definition handleTextChange :: "nat \<Rightarrow> string \<Rightarrow> state \<Rightarrow> error + state" where
  "handleTextChange index newContent s =
     (if index < length (elements s) then
        Inr (s\<lparr>elements := (elements s)[index := (elements s ! index)\<lparr>content := Some newContent\<rparr>]\<rparr>)
      else Inl TypeError)"

definition handleTextDoubleClick :: "nat \<Rightarrow> state \<Rightarrow> error + state" where
  "handleTextDoubleClick index s =
     (if index < length (elements s) then
        Inr (s\<lparr>elements := (elements s)[index := (elements s ! index)\<lparr>isEditing := Some True\<rparr>],
               activeElement := Some index\<rparr>)
      else Inl TypeError)"

definition handleTextBlur :: "nat \<Rightarrow> state \<Rightarrow> error + state" where
  "handleTextBlur index s =
     (if index < length (elements s) then
        Inr (s\<lparr>elements := (elements s)[index := (elements s ! index)\<lparr>isEditing := Some False\<rparr>]\<rparr>)
      else Inl TypeError)"

text \<open>
  The \<^verbatim>\<open>onDoubleClick\<close> of the \<^verbatim>\<open>div\<close> of element \<open>index\<close>:
  \<^verbatim>\<open>element.type === "text" && handleTextDoubleClick(index)\<close>. The listener exists for
  rendered elements only.
\<close>

definition onDoubleClick :: "nat \<Rightarrow> state \<Rightarrow> error + state" where
  "onDoubleClick index s =
     (if index < length (elements s) \<and> el_type (elements s ! index) = Some ''text''
      then handleTextDoubleClick index s else Inr s)"

subsection \<open>Document listeners\<close>

text \<open>\<open>inside\<close> is \<^verbatim>\<open>editedImageRef.current.contains(e.target)\<close>.\<close>

definition handleClickOutside :: "html_div option \<Rightarrow> bool \<Rightarrow> state \<Rightarrow> state" where
  "handleClickOutside editedImageRef inside s =
     (if editedImageRef \<noteq> None \<and> \<not> inside then s\<lparr>activeElement := None\<rparr> else s)"

definition handleKeyDown :: "string \<Rightarrow> state \<Rightarrow> state" where
  "handleKeyDown key s = (if key = ''Escape'' then s\<lparr>activeElement := None\<rparr> else s)"

subsection \<open>Loading an image\<close>

text \<open>
  \<^verbatim>\<open>reader.onload = (e) => setImage(e.target?.result as string)\<close>, the callback of
  both the file picker and the paste listener.
\<close>

definition reader_onload :: "string option \<Rightarrow> state \<Rightarrow> state" where
  "reader_onload result s = s\<lparr>image_src := result\<rparr>"

text \<open>
  An entry of \<^verbatim>\<open>e.clipboardData.items\<close>: its MIME type and what \<^verbatim>\<open>getAsFile()\<close>
  returns (\<^verbatim>\<open>null\<close> for an item that is not a file).
\<close>

record clipboard_item =
  item_type :: string
  getAsFile :: "string option"

text \<open>\<^verbatim>\<open>str.indexOf(pat)\<close>: the first position where \<open>pat\<close> occurs in \<open>str\<close>, or -1.\<close>

fun indexOf_from :: "nat \<Rightarrow> string \<Rightarrow> string \<Rightarrow> int" where
  "indexOf_from i [] pat = (if pat = [] then int i else - 1)"
| "indexOf_from i (c # cs) pat =
     (if prefix pat (c # cs) then int i else indexOf_from (Suc i) cs pat)"

definition indexOf :: "string \<Rightarrow> string \<Rightarrow> int" where
  "indexOf str pat = indexOf_from 0 str pat"

text \<open>
  The loop of \<^verbatim>\<open>handlePaste\<close>. It has no \<^verbatim>\<open>break\<close>: every item whose type contains
  \<^verbatim>\<open>"image"\<close> gets a FileReader of its own, and each reader that finishes calls
  \<^verbatim>\<open>setImage\<close>. The result is the list of files given to \<^verbatim>\<open>readAsDataURL\<close>, in the
  order of the loop, and the TypeError that \<^verbatim>\<open>readAsDataURL(null)\<close> throws, which ends
  the loop.
\<close>

fun paste_loop :: "clipboard_item list \<Rightarrow> string list \<times> error option" where
  "paste_loop [] = ([], None)"
| "paste_loop (item # items) =
     (if indexOf (item_type item) ''image'' \<noteq> - 1 then
        (case getAsFile item of
           None \<Rightarrow> ([], Some TypeError)
         | Some blob \<Rightarrow> (let (reads, err) = paste_loop items in (blob # reads, err)))
      else paste_loop items)"

definition handlePaste :: "clipboard_item list option \<Rightarrow> string list \<times> error option" where
  "handlePaste items = (case items of None \<Rightarrow> ([], None) | Some its \<Rightarrow> paste_loop its)"

subsection \<open>Zoom\<close>

text \<open>
  \<^verbatim>\<open>setZoom((prev) => Math.min(prev + 0.1, 3))\<close> and
  \<^verbatim>\<open>setZoom((prev) => Math.max(prev - 0.1, 0.1))\<close>.
\<close>

definition handleZoomIn :: "presentation \<Rightarrow> presentation" where
  "handleZoomIn p = p\<lparr>zoom := min (zoom p + js_number (1/10)) (js_number 3)\<rparr>"

definition handleZoomOut :: "presentation \<Rightarrow> presentation" where
  "handleZoomOut p = p\<lparr>zoom := max (zoom p - js_number (1/10)) (js_number (1/10))\<rparr>"

datatype zoom_action = ZoomIn | ZoomOut

fun zoom_steps :: "zoom_action list \<Rightarrow> presentation \<Rightarrow> presentation" where
  "zoom_steps [] p = p"
| "zoom_steps (ZoomIn # as) p = zoom_steps as (handleZoomIn p)"
| "zoom_steps (ZoomOut # as) p = zoom_steps as (handleZoomOut p)"

subsection \<open>The composed subtree and its export\<close>

text \<open>
  The JSX of the \<^verbatim>\<open>div\<close> with \<^verbatim>\<open>ref={editedImageRef}\<close>, for a layout rectangle the
  browser chooses. The zoom is part of its own inline style.
\<close>

definition editedImage :: "rect \<Rightarrow> presentation \<Rightarrow> state \<Rightarrow> html_div" where
  "editedImage layout p s =
     \<lparr>boundingClientRect = layout,
      style_padding = padding p,
      style_backgroundColor = background p,
      style_transform_scale = zoom p,
      style_cursor =
        (if selectedTool s = Some ''text'' then ''text''
         else if \<not> falsy (selectedTool s) then ''crosshair'' else ''default''),
      img_src = (if falsy (image_src s) then None else image_src s),
      img_borderRadius = rounded p,
      img_boxShadow = shadow p,
      overlay = elements s,
      overlay_active = activeElement s,
      placeholder = (if selectedTool s = Some ''text'' then Some (cursorPosition s) else None)\<rparr>"

text \<open>
  What an export does besides calling the rasterizer: the download it offers or the
  clipboard entry it writes. The rasterizer (\<^verbatim>\<open>toPng\<close>, \<^verbatim>\<open>toBlob\<close> of html-to-image)
  is a parameter; it gets the node itself, and its promise resolves (\<open>Inr\<close>) or
  rejects (\<open>Inl\<close>), which the handlers do not catch. \<^verbatim>\<open>toBlob\<close> may resolve to
  \<^verbatim>\<open>null\<close>.
\<close>

datatype 'r effect = Download string 'r | ClipboardWrite string 'r

definition handleSave ::
  "(html_div \<Rightarrow> error + 'r) \<Rightarrow> html_div option \<Rightarrow> error + 'r effect list" where
  "handleSave toPng editedImageRef =
     (case editedImageRef of
        None \<Rightarrow> Inr []
      | Some node \<Rightarrow>
          (case toPng node of
             Inl err \<Rightarrow> Inl err
           | Inr dataUrl \<Rightarrow> Inr [Download ''edited-image.png'' dataUrl]))"

definition handleCopyToClipboard ::
  "(html_div \<Rightarrow> error + 'r option) \<Rightarrow> html_div option \<Rightarrow> error + 'r effect list" where
  "handleCopyToClipboard toBlob editedImageRef =
     (case editedImageRef of
        None \<Rightarrow> Inr []
      | Some node \<Rightarrow>
          (case toBlob node of
             Inl err \<Rightarrow> Inl err
           | Inr None \<Rightarrow> Inr []
           | Inr (Some blob) \<Rightarrow> Inr [ClipboardWrite ''image/png'' blob]))"

subsection \<open>Listener calls\<close>

text \<open>One constructor per listener of the component that touches the interaction state.\<close>

datatype action =
    ImageLoaded "string option"
  | ToolSelect string
  | MouseMove "html_div option" mouse_event
  | MouseDown "html_div option" mouse_event
  | MouseUp "html_div option" mouse_event
  | ElementClick nat
  | ElementDoubleClick nat
  | TextChange nat string
  | TextBlur nat
  | ClickOutside "html_div option" bool
  | KeyDown string

fun apply_action :: "action \<Rightarrow> state \<Rightarrow> error + state" where
  "apply_action (ImageLoaded result) s = Inr (reader_onload result s)"
| "apply_action (ToolSelect tool) s = Inr (handleToolSelect tool s)"
| "apply_action (MouseMove ref e) s = Inr (handleMouseMove ref e s)"
| "apply_action (MouseDown ref e) s = Inr (handleMouseDown ref e s)"
| "apply_action (MouseUp ref e) s = handleMouseUp ref e s"
| "apply_action (ElementClick i) s = Inr (handleElementClick i s)"
| "apply_action (ElementDoubleClick i) s = onDoubleClick i s"
| "apply_action (TextChange i str) s = handleTextChange i str s"
| "apply_action (TextBlur i) s = handleTextBlur i s"
| "apply_action (ClickOutside ref inside) s = Inr (handleClickOutside ref inside s)"
| "apply_action (KeyDown key) s = Inr (handleKeyDown key s)"

subsection \<open>Focus and edit mode\<close>

text \<open>
  Inside the \<^verbatim>\<open>div\<close> of an element the JSX renders
  \<^verbatim>\<open>element.type === "text" && (element.isEditing ? <textarea ... /> : <div>...</div>)\<close>,
  and the textarea carries \<^verbatim>\<open>onBlur={() => handleTextBlur(index)}\<close> and \<^verbatim>\<open>autoFocus\<close>.
  An element is rendered as a textarea when:
\<close>

definition textarea :: "element \<Rightarrow> bool" where
  "textarea el = (el_type el = Some ''text'' \<and> isEditing el = Some True)"

text \<open>
  The page: the state of the component, and the index of the element whose textarea is
  \<^verbatim>\<open>document.activeElement\<close>, if one of the textareas is.
\<close>

record page =
  st :: state
  focused :: "nat option"

definition initial_page :: page where
  "initial_page = \<lparr>st = initial_state, focused = None\<rparr>"

text \<open>
  The textareas that a render of \<open>s'\<close> adds to a page showing \<open>s\<close>. The elements have
  \<^verbatim>\<open>key={index}\<close>, so the textarea of an element is added when the element is rendered
  as one and was not before.
\<close>

definition mounted :: "state \<Rightarrow> state \<Rightarrow> nat list" where
  "mounted s s' =
     filter (\<lambda>i. textarea (elements s' ! i) \<and>
                  \<not> (i < length (elements s) \<and> textarea (elements s ! i)))
       [0..<length (elements s')]"

text \<open>
  React calls \<^verbatim>\<open>focus()\<close> on a textarea with \<^verbatim>\<open>autoFocus\<close> when it is added. The
  textarea that had the focus gets a blur event, which its \<^verbatim>\<open>onBlur\<close> answers with
  \<^verbatim>\<open>handleTextBlur\<close>, on the state just rendered.
\<close>

definition focus_textarea :: "nat \<Rightarrow> page \<Rightarrow> error + page" where
  "focus_textarea i p =
     (case focused p of
        None \<Rightarrow> Inr (p\<lparr>focused := Some i\<rparr>)
      | Some j \<Rightarrow>
          if j = i then Inr p
          else case handleTextBlur j (st p) of
                 Inl err \<Rightarrow> Inl err
               | Inr s' \<Rightarrow> Inr \<lparr>st = s', focused = Some i\<rparr>)"

fun focus_each :: "nat list \<Rightarrow> page \<Rightarrow> error + page" where
  "focus_each [] p = Inr p"
| "focus_each (i # rest) p =
     (case focus_textarea i p of Inl err \<Rightarrow> Inl err | Inr p' \<Rightarrow> focus_each rest p')"

text \<open>
  The render that follows a listener call which left the state \<open>s'\<close>: a focused
  textarea that is no longer rendered takes the focus with it, and the added textareas
  are focused.
\<close>

definition render :: "page \<Rightarrow> state \<Rightarrow> error + page" where
  "render p s' =
     (let kept = (case focused p of
                    None \<Rightarrow> None
                  | Some j \<Rightarrow>
                      if j < length (elements s') \<and> textarea (elements s' ! j)
                      then Some j else None)
      in focus_each (mounted (st p) s') \<lparr>st = s', focused = kept\<rparr>)"

text \<open>A listener call on a page, with the render that follows it.\<close>

definition dispatch :: "action \<Rightarrow> page \<Rightarrow> error + page" where
  "dispatch a p =
     (case apply_action a (st p) of Inl err \<Rightarrow> Inl err | Inr s' \<Rightarrow> render p s')"

text \<open>
  A sequence of listener calls, up to the first uncaught exception. A listener that
  throws does so before it calls a setter, so a call that throws leaves the page as it
  was.
\<close>

fun run :: "action list \<Rightarrow> page \<Rightarrow> error + page" where
  "run [] p = Inr p"
| "run (a # as) p = (case dispatch a p of Inl err \<Rightarrow> Inl err | Inr p' \<Rightarrow> run as p')"

text \<open>
  A pointer-down on the canvas, the \<^verbatim>\<open>div\<close> that carries \<^verbatim>\<open>onMouseDown\<close>. The same
  \<^verbatim>\<open>mousedown\<close> event is handled by \<^verbatim>\<open>handleMouseDown\<close> and then by the document's
  listener \<^verbatim>\<open>handleClickOutside\<close>, where \<open>inside\<close> is what
  \<^verbatim>\<open>editedImageRef.current.contains(e.target)\<close> evaluates to: the ref is on an inner
  \<^verbatim>\<open>div\<close>, the composed subtree, so it is false for a pointer-down on the canvas around
  the composed subtree.
\<close>

definition pointer_down :: "bool \<Rightarrow> html_div option \<Rightarrow> mouse_event \<Rightarrow> page \<Rightarrow> error + page" where
  "pointer_down inside editedImageRef e p =
     (case dispatch (MouseDown editedImageRef e) p of
        Inl err \<Rightarrow> Inl err
      | Inr p1 \<Rightarrow> dispatch (ClickOutside editedImageRef inside) p1)"



subsection \<open>Dragging\<close>

text \<open>A run of pointer-move events, each with the node the ref holds when it arrives.\<close>

fun drag_moves :: "(html_div \<times> mouse_event) list \<Rightarrow> state \<Rightarrow> state" where
  "drag_moves [] s = s"
| "drag_moves ((node, e) # ms) s = drag_moves ms (handleMouseMove (Some node) e s)"

text \<open>
  The pointer samples of such a run, and the deltas between consecutive samples as
  \<^verbatim>\<open>handleMouseMove\<close> computes them, the first one from the last sample \<open>p\<close>
  before the run.
\<close>

definition samples :: "(html_div \<times> mouse_event) list \<Rightarrow> point list" where
  "samples ms = map (\<lambda>(node, e). pointer node e) ms"

fun deltas :: "point \<Rightarrow> point list \<Rightarrow> point list" where
  "deltas p [] = []"
| "deltas p (q # qs) = \<lparr>pt_x = pt_x q - pt_x p, pt_y = pt_y q - pt_y p\<rparr> # deltas q qs"

text \<open>
  A subtraction or an addition is exact when its result is not rounded. A run of moves
  is exact for the state it starts in when every subtraction and addition that
  \<^verbatim>\<open>handleMouseMove\<close> performs for the active element is.
\<close>

definition exact_sub :: "double \<Rightarrow> double \<Rightarrow> bool" where
  "exact_sub a b = (val (a - b) = val a - val b)"

definition exact_add :: "double \<Rightarrow> double \<Rightarrow> bool" where
  "exact_add a b = (val (a + b) = val a + val b)"

definition exact_move :: "html_div \<Rightarrow> mouse_event \<Rightarrow> state \<Rightarrow> bool" where
  "exact_move node e s =
     (case activeElement s of
        None \<Rightarrow> True
      | Some i \<Rightarrow>
          if i < length (elements s) then
            let p = pointer node e; el = elements s ! i
            in exact_sub (pt_x p) (pt_x (dragStart s)) \<and>
               exact_sub (pt_y p) (pt_y (dragStart s)) \<and>
               exact_add (el_x el) (pt_x p - pt_x (dragStart s)) \<and>
               exact_add (el_y el) (pt_y p - pt_y (dragStart s))
          else True)"

fun exact_moves :: "(html_div \<times> mouse_event) list \<Rightarrow> state \<Rightarrow> bool" where
  "exact_moves [] s = True"
| "exact_moves ((node, e) # ms) s =
     (exact_move node e s \<and> exact_moves ms (handleMouseMove (Some node) e s))"

subsection \<open>Sample values\<close>

text \<open>A composed subtree laid out at the origin, and a pointer event.\<close>

definition div_at_origin :: "state \<Rightarrow> html_div" where
  "div_at_origin s =
     editedImage \<lparr>rect_left = js_number 0, rect_top = js_number 0\<rparr> initial_presentation s"

definition mouse_at :: "rat \<Rightarrow> rat \<Rightarrow> mouse_event" where
  "mouse_at cx cy = \<lparr>clientX = js_number cx, clientY = js_number cy\<rparr>"

text \<open>The state after an image has been loaded.\<close>

definition loaded_state :: state where
  "loaded_state = reader_onload (Some ''data:image/png;base64,AAAA'') initial_state"

text \<open>
  The text tool is selected and a pointer-down at (50, 60) places a text element; a
  second pointer-down, at (55, 65), starts dragging it.
\<close>

definition text_placed :: state where
  "text_placed =
     handleMouseDown (Some (div_at_origin loaded_state)) (mouse_at 50 60)
       (handleToolSelect ''text'' loaded_state)"

definition dragging_state :: state where
  "dragging_state = handleMouseDown (Some (div_at_origin loaded_state)) (mouse_at 55 65) text_placed"

text \<open>
  The same with a text element placed at (0.1, 0.1) and picked up at (0, 0): a pointer
  that reports fractions of a pixel.
\<close>

definition fraction_dragging_state :: state where
  "fraction_dragging_state =
     handleMouseDown (Some (div_at_origin loaded_state)) (mouse_at 0 0)
       (handleMouseDown (Some (div_at_origin loaded_state)) (mouse_at (1/10) (1/10))
          (handleToolSelect ''text'' loaded_state))"

text \<open>
  The same subtree laid out 100 pixels to the right of and below the corner of the
  viewport, so that a pointer at (50, 60) is on the canvas around it.
\<close>

definition div_offset :: "state \<Rightarrow> html_div" where
  "div_offset s =
     editedImage \<lparr>rect_left = js_number 100, rect_top = js_number 100\<rparr> initial_presentation s"

text \<open>
  The page with the text tool selected and no element yet, and the page with the text
  tool selected again while the first text element is in edit mode and has the focus.
\<close>

definition text_tool_page :: page where
  "text_tool_page = \<lparr>st = handleToolSelect ''text'' loaded_state, focused = None\<rparr>"

definition second_text_page :: page where
  "second_text_page = \<lparr>st = handleToolSelect ''text'' text_placed, focused = Some 0\<rparr>"


section \<open>Properties\<close>

subsection \<open>Rounding\<close>

text \<open>The error of rounding to 53 bits, and rules that evaluate \<open>fl\<close> on numerals.\<close>

lemma round_even_error: "\<bar>of_int (round_even t) - t\<bar> \<le> 1/2"
proof -
  have "of_int \<lfloor>t\<rfloor> \<le> t" "t < of_int \<lfloor>t\<rfloor> + 1"
    by linarith+
  then show ?thesis
    by (auto simp: round_even_def Let_def)
qed

lemma bitlen_pos_bounds:
  assumes "0 < a"
  shows "(2::rat) powi (bitlen a - 1) \<le> of_int a" and "of_int a < (2::rat) powi (bitlen a)"
proof -
  from bitlen_bounds[OF assms]
  have 1: "2 ^ nat (bitlen a - 1) \<le> a" and 2: "a < 2 ^ nat (bitlen a)" by auto
  have pos: "1 \<le> bitlen a"
    using assms bitlen_eq_zero_iff[of a] bitlen_nonneg[of a] by linarith
  have "(2::rat) ^ nat (bitlen a - 1) \<le> of_int a"
    using 1 by (metis of_int_le_iff of_int_numeral of_int_power)
  then show "(2::rat) powi (bitlen a - 1) \<le> of_int a"
    using pos by (simp add: power_int_def)
  have "of_int a < (2::rat) ^ nat (bitlen a)"
    using 2 by (metis of_int_less_iff of_int_numeral of_int_power)
  then show "of_int a < (2::rat) powi (bitlen a)"
    using pos by (simp add: power_int_def)
qed

lemma frac_bitlen_bounds:
  assumes a: "0 < a" and b: "0 < b"
  shows "(2::rat) powi (bitlen a - bitlen b - 1) \<le> of_int a / of_int b"
    and "of_int a / of_int b < (2::rat) powi (bitlen a - bitlen b + 1)"
proof -
  have 1: "of_int a < (2::rat) powi (bitlen a)" "(2::rat) powi (bitlen b - 1) \<le> of_int b"
    using bitlen_pos_bounds a b by auto
  have 2: "(2::rat) powi (bitlen a - bitlen b + 1) = 2 powi (bitlen a) / 2 powi (bitlen b - 1)"
    by (subst power_int_diff[symmetric]) (auto simp: algebra_simps)
  from 1 have "of_int a / of_int b < (2::rat) powi (bitlen a) / of_int b"
    and "(2::rat) powi (bitlen a) / of_int b \<le> 2 powi (bitlen a) / 2 powi (bitlen b - 1)"
    using b by (simp_all add: divide_strict_right_mono divide_left_mono)
  then show "of_int a / of_int b < (2::rat) powi (bitlen a - bitlen b + 1)"
    unfolding 2 by linarith
  have 3: "(2::rat) powi (bitlen a - 1) \<le> of_int a" "of_int b < (2::rat) powi (bitlen b)"
    using bitlen_pos_bounds a b by auto
  have 4: "(2::rat) powi (bitlen a - bitlen b - 1) = 2 powi (bitlen a - 1) / 2 powi (bitlen b)"
    by (subst power_int_diff[symmetric]) (auto simp: algebra_simps)
  from 3 have "(2::rat) powi (bitlen a - 1) / 2 powi (bitlen b) \<le> 2 powi (bitlen a - 1) / of_int b"
    and "(2::rat) powi (bitlen a - 1) / of_int b \<le> of_int a / of_int b"
    using b by (simp_all add: divide_right_mono divide_left_mono)
  then show "(2::rat) powi (bitlen a - bitlen b - 1) \<le> of_int a / of_int b"
    unfolding 4 by linarith
qed

lemma ilog2_bounds:
  assumes "0 < q"
  shows "2 powi (ilog2 q) \<le> q" and "q < 2 powi (ilog2 q + 1)"
proof -
  obtain a b where ab: "quotient_of q = (a, b)"
    by (cases "quotient_of q")
  have b: "0 < b" and q: "q = of_int a / of_int b"
    using ab quotient_of_denom_pos quotient_of_div by auto
  have a: "0 < a"
    using assms b q by (simp add: zero_less_divide_iff)
  define k where "k = bitlen a - bitlen b"
  note bounds = frac_bitlen_bounds[OF a b, folded k_def q]
  have il: "ilog2 q = (if 2 powi k \<le> q then k else k - 1)"
    by (simp add: ilog2_def ab k_def)
  show "2 powi (ilog2 q) \<le> q"
    using bounds(1) by (simp add: il)
  show "q < 2 powi (ilog2 q + 1)"
    using bounds(2) by (auto simp add: il not_le)
qed

lemma ilog2_unique:
  assumes "0 < q" and "2 powi k \<le> q" and "q < 2 powi (k + 1)"
  shows "ilog2 q = k"
proof -
  have "(2::rat) powi (ilog2 q) < 2 powi (k + 1)"
    using ilog2_bounds(1)[OF assms(1)] assms(3) by linarith
  then have 1: "ilog2 q < k + 1"
    using power_int_increasing[of "k + 1" "ilog2 q" "2::rat"] by (cases "ilog2 q < k + 1") auto
  have "(2::rat) powi k < 2 powi (ilog2 q + 1)"
    using ilog2_bounds(2)[OF assms(1)] assms(2) by linarith
  then have 2: "k < ilog2 q + 1"
    using power_int_increasing[of "ilog2 q + 1" k "2::rat"] by (cases "k < ilog2 q + 1") auto
  from 1 2 show ?thesis by linarith
qed

lemma fl_error:
  assumes "0 < q"
  shows "\<bar>fl q - q\<bar> \<le> q / 2 ^ 53"
proof -
  define e where "e = ilog2 q - 52"
  define t where "t = q / 2 powi e"
  have pe: "(0::rat) < 2 powi e" by simp
  have fl: "fl q = of_int (round_even t) * 2 powi e"
    using assms by (simp add: fl_def e_def t_def Let_def)
  have q: "q = t * 2 powi e"
    by (simp add: t_def)
  have "\<bar>fl q - q\<bar> = \<bar>of_int (round_even t) - t\<bar> * 2 powi e"
    unfolding fl by (subst q) (simp add: abs_mult flip: left_diff_distrib)
  also have "\<dots> \<le> 1/2 * 2 powi e"
    using round_even_error[of t] pe by (intro mult_right_mono) auto
  also have "(2::rat) powi e = 2 powi (ilog2 q) / 2 ^ 52"
    unfolding e_def by (subst power_int_diff) auto
  also have "1/2 * (2 powi (ilog2 q) / 2 ^ 52) = 2 powi (ilog2 q) / (2::rat) ^ 53"
    by simp
  also have "\<dots> \<le> q / 2 ^ 53"
    using ilog2_bounds(1)[OF assms] by (simp add: divide_right_mono)
  finally show ?thesis .
qed


lemma round_even_frac:
  assumes "0 < b"
  shows "round_even (of_int a / of_int b) =
     (let n = a div b; r = a mod b
      in if 2 * r < b then n else if b < 2 * r then n + 1 else if even n then n else n + 1)"
proof -
  have fl: "\<lfloor>(of_int a / of_int b :: rat)\<rfloor> = a div b"
    by (rule floor_divide_of_int_eq)
  have "(of_int a :: rat) = of_int (a div b) * of_int b + of_int (a mod b)"
    by (metis div_mult_mod_eq of_int_add of_int_mult)
  then have d: "(of_int a / of_int b :: rat) - of_int (a div b) = of_int (a mod b) / of_int b"
    using assms by (simp add: field_simps)
  have lt: "(of_int (a mod b) / of_int b :: rat) < 1/2 \<longleftrightarrow> 2 * (a mod b) < b"
  proof -
    have "(of_int (a mod b) / of_int b :: rat) < 1/2 \<longleftrightarrow> (of_int (2 * (a mod b)) :: rat) < of_int b"
      using assms by (simp add: field_simps)
    then show ?thesis by (simp only: of_int_less_iff)
  qed
  have gt: "1/2 < (of_int (a mod b) / of_int b :: rat) \<longleftrightarrow> b < 2 * (a mod b)"
  proof -
    have "1/2 < (of_int (a mod b) / of_int b :: rat) \<longleftrightarrow> (of_int b :: rat) < of_int (2 * (a mod b))"
      using assms by (simp add: field_simps)
    then show ?thesis by (simp only: of_int_less_iff)
  qed
  show ?thesis
    unfolding round_even_def Let_def fl d lt gt ..
qed


lemma round_even_numeral_frac:
  "round_even (numeral a / numeral b) =
     (let n = (numeral a :: int) div numeral b; r = (numeral a :: int) mod numeral b
      in if 2 * r < numeral b then n else if numeral b < 2 * r then n + 1
         else if even n then n else n + 1)"
proof -
  have "0 < (numeral b :: int)" by simp
  from round_even_frac[OF this, of "numeral a"] show ?thesis
    by (simp only: of_int_numeral)
qed

lemma round_even_numeral: "round_even (numeral a) = numeral a"
  by (simp add: round_even_def)

lemma ilog2_frac:
  assumes a: "0 < a" and b: "0 < b"
  shows "ilog2 (of_int a / of_int b) =
     (let k = bitlen a - bitlen b in if 2 powi k \<le> (of_int a / of_int b :: rat) then k else k - 1)"
proof -
  let ?q = "of_int a / of_int b :: rat"
  let ?k = "bitlen a - bitlen b"
  have q: "0 < ?q" using a b by simp
  show ?thesis
  proof (cases "2 powi ?k \<le> ?q")
    case True
    with frac_bitlen_bounds(2)[OF a b] have "ilog2 ?q = ?k"
      by (intro ilog2_unique q) auto
    with True show ?thesis by (simp add: Let_def)
  next
    case False
    with frac_bitlen_bounds(1)[OF a b] have "ilog2 ?q = ?k - 1"
      by (intro ilog2_unique q) auto
    with False show ?thesis by (simp add: Let_def)
  qed
qed

lemma ilog2_numeral_frac:
  "ilog2 (numeral a / numeral b) =
     (let k = bitlen (numeral a) - bitlen (numeral b)
      in if 2 powi k \<le> (numeral a / numeral b :: rat) then k else k - 1)"
proof -
  have "0 < (numeral a :: int)" "0 < (numeral b :: int)" by simp_all
  from ilog2_frac[OF this] show ?thesis
    by (simp only: of_int_numeral)
qed

lemma ilog2_numeral:
  "ilog2 (numeral a) = bitlen (numeral a) - 1"
proof -
  have "0 < (numeral a :: int)" "0 < (1 :: int)" by simp_all
  from ilog2_frac[OF this] bitlen_pos_bounds(1)[of "numeral a"] show ?thesis
    by (simp add: compute_bitlen[of 1])
qed


lemma ilog2_one_numeral_frac:
  "ilog2 (1 / numeral b) =
     (let k = 1 - bitlen (numeral b)
      in if 2 powi k \<le> (1 / numeral b :: rat) then k else k - 1)"
proof -
  have "0 < (1 :: int)" "0 < (numeral b :: int)" by simp_all
  from ilog2_frac[OF this] show ?thesis
    by (simp add: compute_bitlen[of 1])
qed

lemma round_even_one_numeral_frac:
  "round_even (1 / numeral b) =
     (let n = (1 :: int) div numeral b; r = (1 :: int) mod numeral b
      in if 2 * r < numeral b then n else if numeral b < 2 * r then n + 1
         else if even n then n else n + 1)"
proof -
  have "0 < (numeral b :: int)" by simp
  from round_even_frac[OF this, of 1] show ?thesis
    by (simp only: of_int_numeral of_int_1)
qed

lemma round_even_neg_numeral_frac:
  "round_even (- (numeral a / numeral b)) =
     (let n = (- numeral a :: int) div numeral b; r = (- numeral a :: int) mod numeral b
      in if 2 * r < numeral b then n else if numeral b < 2 * r then n + 1
         else if even n then n else n + 1)"
proof -
  have "0 < (numeral b :: int)" by simp
  from round_even_frac[OF this, of "- numeral a"] show ?thesis
    by (simp only: of_int_numeral of_int_minus minus_divide_left)
qed

lemma round_even_neg_numeral: "round_even (- numeral a) = - numeral a"
  by (simp add: round_even_def)

lemma ilog2_one: "ilog2 1 = 0"
  by (rule ilog2_unique) simp_all

lemmas fl_eval = fl_def ilog2_numeral_frac ilog2_numeral ilog2_one_numeral_frac ilog2_one
  round_even_numeral_frac round_even_one_numeral_frac round_even_numeral
  round_even_neg_numeral_frac round_even_neg_numeral compute_bitlen Let_def

lemmas double_eval = plus_double_def minus_double_def less_eq_double_def less_double_def
  js_number_def fl_eval



lemma fl_ge:
  assumes "0 < b" and "b \<le> q"
  shows "b - b / 9007199254740992 \<le> fl q"
proof -
  from assms have "0 < q" by simp
  from fl_error[OF this] have "\<bar>fl q - q\<bar> \<le> q / 9007199254740992"
    by simp
  with assms(2) show ?thesis
    by linarith
qed

lemma fl_le:
  assumes "0 < q" and "q \<le> b"
  shows "fl q \<le> b + b / 9007199254740992"
proof -
  from fl_error[OF assms(1)] have "\<bar>fl q - q\<bar> \<le> q / 9007199254740992"
    by simp
  with assms(2) show ?thesis
    by linarith
qed

lemma fl_pos:
  assumes "0 < q"
  shows "0 < fl q"
proof -
  have "0 < q - q / 9007199254740992"
    using assms by simp
  with fl_ge[OF assms order_refl] show ?thesis
    by linarith
qed

lemma fl_neg:
  assumes "q < 0"
  shows "fl q < 0"
proof -
  define e where "e = ilog2 \<bar>q\<bar> - 52"
  define t where "t = q / 2 powi e"
  have pe: "(0::rat) < 2 powi e" by simp
  have "0 < \<bar>q\<bar>" using assms by simp
  from ilog2_bounds(1)[OF this] have "2 powi (ilog2 \<bar>q\<bar>) \<le> - q"
    using assms by simp
  then have "2 powi (ilog2 \<bar>q\<bar>) / 2 powi e \<le> (- q) / 2 powi e"
    by (rule divide_right_mono) simp
  moreover have "(2::rat) powi (ilog2 \<bar>q\<bar>) / 2 powi e = 2 ^ 52"
    unfolding e_def by (subst power_int_diff[symmetric]) simp_all
  ultimately have "t \<le> - 1"
    by (simp add: t_def)
  with round_even_error[of t] have "of_int (round_even t) < (0::rat)"
    by linarith
  then have "of_int (round_even t) * 2 powi e < (0::rat)"
    using pe by (simp add: mult_less_0_iff)
  then show ?thesis
    using assms by (simp add: fl_def Let_def e_def t_def)
qed

lemma sub_negative:
  fixes a b :: double
  assumes "a < b"
  shows "a - b < js_number 0"
  using fl_neg[of "val a - val b"] assms
  by (simp add: less_double_def minus_double_def js_number_def fl_def)

lemma tenth: "fl (1/10) = 3602879701896397 / 36028797018963968"
  by (simp add: fl_eval)


lemmas sample_eval = handleToolSelect_def handleMouseDown_def loaded_state_def
  reader_onload_def initial_state_def falsy_def pointer_def div_at_origin_def editedImage_def
  mouse_at_def Let_def double_eval

subsection \<open>Drawing a shape\<close>

text \<open>Facts about \<open>map_index\<close>.\<close>

lemma length_map_index: "length (map_index f xs) = length xs"
  by (simp add: map_index_def)

lemma nth_map_index: "i < length xs \<Longrightarrow> map_index f xs ! i = f (xs ! i) i"
  by (simp add: map_index_def nth_enumerate_eq)

text \<open>Pointer-moves leave a draw in progress as it is.\<close>

lemma move_keeps_drawing:
  "isDrawing (handleMouseMove ref e s) = isDrawing s"
  "drawStart (handleMouseMove ref e s) = drawStart s"
  "selectedTool (handleMouseMove ref e s) = selectedTool s"
  "isDragging (handleMouseMove ref e s) = isDragging s"
  "length (elements (handleMouseMove ref e s)) = length (elements s)"
  "\<not> isDragging s \<Longrightarrow> elements (handleMouseMove ref e s) = elements s"
  by (simp_all add: handleMouseMove_def Let_def length_map_index split: option.splits)

lemma moves_keep_drawing:
  "isDrawing (pointer_moves ms s) = isDrawing s \<and>
   drawStart (pointer_moves ms s) = drawStart s \<and>
   selectedTool (pointer_moves ms s) = selectedTool s \<and>
   length (elements (pointer_moves ms s)) = length (elements s) \<and>
   (\<not> isDragging s \<longrightarrow> elements (pointer_moves ms s) = elements s)"
proof (induction ms arbitrary: s)
  case Nil
  then show ?case by simp
next
  case (Cons m ms)
  obtain ref e where m: "m = (ref, e)" by (cases m)
  from Cons.IH[of "handleMouseMove ref e s"] show ?case
    by (simp add: m move_keeps_drawing)
qed

text \<open>
  C1. With the arrow tool or the rectangle tool (which the source names \<^verbatim>\<open>"square"\<close>)
  selected, a gesture made of a pointer-down at the anchor \<open>a\<close>, any pointer-moves,
  and a pointer-up at \<open>r\<close> (both points in the coordinates of the composed subtree)
  appends exactly one element to the list as it stands before the pointer-up: its type
  is the selected tool, its position the anchor, its size \<open>r - a\<close> component by
  component, negative where \<open>r\<close> is less than \<open>a\<close>. The list before the pointer-up is
  the one before the gesture when there are no moves or no drag is in progress.
  Afterwards no tool is selected and the drawing flag is cleared.
\<close>

theorem shape_drawing_gesture:
  assumes "selectedTool s = Some t" and "t = ''arrow'' \<or> t = ''square''"
    and "a = pointer n1 e1" and "r = pointer n2 e2"
    and "s1 = pointer_moves ms (handleMouseDown (Some n1) e1 s)"
  shows "\<exists>s'. handleMouseUp (Some n2) e2 s1 = Inr s' \<and>
           elements s' = elements s1 @
             [\<lparr>el_type = Some t, el_x = pt_x a, el_y = pt_y a, content = None,
               width = Some (pt_x r - pt_x a), height = Some (pt_y r - pt_y a),
               isEditing = None\<rparr>] \<and>
           length (elements s') = Suc (length (elements s)) \<and>
           (ms = [] \<or> \<not> isDragging s \<longrightarrow> elements s1 = elements s) \<and>
           selectedTool s' = None \<and> \<not> isDrawing s' \<and>
           (pt_x r < pt_x a \<longrightarrow> pt_x r - pt_x a < js_number 0) \<and>
           (pt_y r < pt_y a \<longrightarrow> pt_y r - pt_y a < js_number 0)"
proof -
  from assms(1,2) have tool: "selectedTool s \<noteq> Some ''text''"
    "selectedTool s = Some ''arrow'' \<or> selectedTool s = Some ''square''"
    by auto
  have down: "handleMouseDown (Some n1) e1 s = s\<lparr>isDrawing := True, drawStart := a\<rparr>"
    using tool assms(3) by (simp add: handleMouseDown_def Let_def)
  note keep = moves_keep_drawing[of ms "s\<lparr>isDrawing := True, drawStart := a\<rparr>"]
  have s1: "isDrawing s1" "drawStart s1 = a" "selectedTool s1 = Some t"
    "length (elements s1) = length (elements s)"
    using keep assms(1) by (simp_all add: assms(5) down)
  have same: "ms = [] \<or> \<not> isDragging s \<longrightarrow> elements s1 = elements s"
    using keep by (auto simp add: assms(5) down)
  show ?thesis
    using s1 same assms(4) sub_negative
    by (simp add: handleMouseUp_def Let_def)
qed

theorem shape_drawing_gesture_witness:
  "(\<exists>s'. handleMouseUp (Some (div_at_origin loaded_state)) (mouse_at 110 60)
           (pointer_moves [(Some (div_at_origin loaded_state), mouse_at 50 30)]
              (handleMouseDown (Some (div_at_origin loaded_state)) (mouse_at 10 10)
                 (handleToolSelect ''square'' loaded_state))) = Inr s' \<and>
         elements s' =
           [\<lparr>el_type = Some ''square'', el_x = Double 10, el_y = Double 10, content = None,
             width = Some (Double 100), height = Some (Double 50), isEditing = None\<rparr>] \<and>
         selectedTool s' = None \<and> \<not> isDrawing s') \<and>
   (\<exists>s'. handleMouseUp (Some (div_at_origin loaded_state)) (mouse_at 4 2)
           (pointer_moves []
              (handleMouseDown (Some (div_at_origin loaded_state)) (mouse_at 10 10)
                 (handleToolSelect ''arrow'' loaded_state))) = Inr s' \<and>
         elements s' =
           [\<lparr>el_type = Some ''arrow'', el_x = Double 10, el_y = Double 10, content = None,
             width = Some (Double (- 6)), height = Some (Double (- 8)), isEditing = None\<rparr>] \<and>
         selectedTool s' = None \<and> \<not> isDrawing s') \<and>
   Double 4 < Double 10 \<and> Double 4 - Double 10 < js_number 0 \<and>
   Double 2 < Double 10 \<and> Double 2 - Double 10 < js_number 0"
proof -
  have tools: "selectedTool (handleToolSelect ''square'' loaded_state) = Some ''square''"
    "selectedTool (handleToolSelect ''arrow'' loaded_state) = Some ''arrow''"
    "elements (handleToolSelect ''square'' loaded_state) = []"
    "elements (handleToolSelect ''arrow'' loaded_state) = []"
    "\<not> isDragging (handleToolSelect ''square'' loaded_state)"
    by (simp_all add: handleToolSelect_def loaded_state_def reader_onload_def
        initial_state_def falsy_def)
  have pts: "pointer (div_at_origin loaded_state) (mouse_at 10 10) = \<lparr>pt_x = Double 10, pt_y = Double 10\<rparr>"
    "pointer (div_at_origin loaded_state) (mouse_at 110 60) = \<lparr>pt_x = Double 110, pt_y = Double 60\<rparr>"
    "pointer (div_at_origin loaded_state) (mouse_at 4 2) = \<lparr>pt_x = Double 4, pt_y = Double 2\<rparr>"
    by (simp_all add: pointer_def div_at_origin_def editedImage_def mouse_at_def double_eval)
  have diffs: "Double 110 - Double 10 = Double 100" "Double 60 - Double 10 = Double 50"
    "Double 4 - Double 10 = Double (- 6)" "Double 2 - Double 10 = Double (- 8)"
    and less: "Double 4 < Double 10" "Double 2 < Double 10"
    by (simp_all add: double_eval)
  from shape_drawing_gesture[OF tools(1) _ pts(1)[symmetric] pts(2)[symmetric] refl,
      where ms = "[(Some (div_at_origin loaded_state), mouse_at 50 30)]"]
    shape_drawing_gesture[OF tools(2) _ pts(1)[symmetric] pts(3)[symmetric] refl,
      where ms = "[]"]
  show ?thesis
    using less by (auto simp add: tools diffs)
qed

subsection \<open>Creating a text element\<close>

text \<open>What a render adds when a textarea is appended, and when the elements stay.\<close>

lemma mounted_append:
  assumes "textarea el" and "elements s' = elements s @ [el]"
  shows "mounted s s' = [length (elements s)]"
proof -
  have "filter (\<lambda>i. textarea ((elements s @ [el]) ! i) \<and>
                  \<not> (i < length (elements s) \<and> textarea (elements s ! i)))
          [0..<length (elements s)] = []"
    by (auto simp: filter_empty_conv nth_append)
  with assms show ?thesis
    by (simp add: mounted_def)
qed

lemma mounted_same:
  assumes "elements s' = elements s"
  shows "mounted s s' = []"
  using assms by (auto simp: mounted_def filter_empty_conv)

lemmas page_eval = run.simps dispatch_def render_def mounted_def focus_textarea_def
  focus_each.simps textarea_def initial_page_def apply_action.simps handleClickOutside_def
  handleKeyDown_def handleElementClick_def

text \<open>
  C2, as amended. With the text tool selected, a pointer-down on the canvas at \<open>(x, y)\<close>
  (the pointer in the coordinates of the composed subtree) leaves the page in exactly
  this state: one Text element is appended to the end of the list, at \<open>(x, y)\<close>, 200
  wide and 40 high, with the content "Text goes here" and isEditing = true, and its
  textarea has the focus; the elements before it are as they were, except that the one
  whose textarea had the focus, if any, has lost it and is no longer in edit mode; no
  tool is selected. The active index is the previous length of the list when the
  outside-click listener, which handles the same event, finds the target of the
  pointer-down inside the composed subtree; when it does not, as for a pointer-down on
  the canvas around the composed subtree, it clears the selection and no element is
  active.
\<close>

theorem text_creation:
  assumes "selectedTool (st p) = Some ''text''"
  shows "pointer_down inside (Some node) e p =
     Inr \<lparr>st = (st p)
            \<lparr>elements :=
               (case focused p of
                  None \<Rightarrow> elements (st p)
                | Some j \<Rightarrow>
                    if j < length (elements (st p)) \<and> textarea (elements (st p) ! j)
                    then (elements (st p))[j := (elements (st p) ! j)\<lparr>isEditing := Some False\<rparr>]
                    else elements (st p)) @
               [\<lparr>el_type = Some ''text'', el_x = pt_x (pointer node e),
                 el_y = pt_y (pointer node e), content = Some ''Text goes here'',
                 width = Some (Double 200), height = Some (Double 40),
                 isEditing = Some True\<rparr>],
             activeElement :=
               (if inside then Some (length (elements (st p))) else None),
             selectedTool := None\<rparr>,
          focused = Some (length (elements (st p)))\<rparr>"
proof -
  define new where "new = \<lparr>el_type = Some ''text'', el_x = pt_x (pointer node e),
     el_y = pt_y (pointer node e), content = Some ''Text goes here'',
     width = Some (Double 200), height = Some (Double 40), isEditing = Some True\<rparr>"
  define els where "els = elements (st p)"
  define n where "n = length els"
  define s1 where "s1 = (st p)\<lparr>elements := els @ [new], activeElement := Some n,
     selectedTool := None\<rparr>"
  define blurred where "blurred = (case focused p of None \<Rightarrow> els
     | Some j \<Rightarrow> if j < n \<and> textarea (els ! j)
         then els[j := (els ! j)\<lparr>isEditing := Some False\<rparr>] else els)"
  have new: "textarea new"
    by (simp add: new_def textarea_def)
  have "js_number 200 = Double 200" "js_number 40 = Double 40"
    by (simp_all add: double_eval)
  with assms have down: "apply_action (MouseDown (Some node) e) (st p) = Inr s1"
    by (simp add: handleMouseDown_def Let_def s1_def new_def els_def n_def)
  have m: "mounted (st p) s1 = [n]"
    using mounted_append[OF new, of s1 "st p"] by (simp add: s1_def els_def n_def)
  have p1: "render p s1 = Inr \<lparr>st = s1\<lparr>elements := blurred @ [new]\<rparr>, focused = Some n\<rparr>"
  proof (cases "focused p")
    case None
    then show ?thesis
      unfolding render_def m by (simp add: Let_def focus_textarea_def blurred_def s1_def)
  next
    case (Some j)
    consider "j < n" "textarea (els ! j)" | "j < n" "\<not> textarea (els ! j)" | "j = n" | "n < j"
      by fastforce
    then show ?thesis
    proof cases
      case 1
      then show ?thesis
        using Some unfolding render_def m
        by (simp add: Let_def focus_textarea_def blurred_def s1_def handleTextBlur_def
            n_def nth_append list_update_append1)
    next
      case 2
      then show ?thesis
        using Some unfolding render_def m
        by (simp add: Let_def focus_textarea_def blurred_def s1_def n_def nth_append)
    next
      case 3
      then show ?thesis
        using Some new unfolding render_def m
        by (simp add: Let_def focus_textarea_def blurred_def s1_def n_def nth_append)
    next
      case 4
      then show ?thesis
        using Some unfolding render_def m
        by (simp add: Let_def focus_textarea_def blurred_def s1_def n_def nth_append)
    qed
  qed
  define s2 where "s2 = s1\<lparr>elements := blurred @ [new]\<rparr>"
  define s3 where "s3 = s2\<lparr>activeElement := (if inside then Some n else None)\<rparr>"
  have len: "length blurred = n"
    by (simp add: blurred_def n_def split: option.splits)
  have out: "apply_action (ClickOutside (Some node) inside) s2 = Inr s3"
    by (simp add: handleClickOutside_def s3_def s2_def s1_def)
  have "mounted s2 s3 = []"
    by (rule mounted_same) (simp add: s3_def)
  then have p2: "render \<lparr>st = s2, focused = Some n\<rparr> s3 = Inr \<lparr>st = s3, focused = Some n\<rparr>"
    using new len by (simp add: render_def Let_def s3_def s2_def nth_append)
  have "pointer_down inside (Some node) e p = Inr \<lparr>st = s3, focused = Some n\<rparr>"
    using down p1 out p2 by (simp add: pointer_down_def dispatch_def s2_def)
  then show ?thesis
    unfolding s3_def s2_def s1_def blurred_def new_def n_def els_def by simp
qed


theorem text_creation_witness:
  "selectedTool (st text_tool_page) = Some ''text'' \<and>
   pointer_down True (Some (div_at_origin loaded_state)) (mouse_at 50 60) text_tool_page =
     Inr \<lparr>st = (st text_tool_page)
            \<lparr>elements :=
               [\<lparr>el_type = Some ''text'', el_x = Double 50, el_y = Double 60,
                 content = Some ''Text goes here'', width = Some (Double 200),
                 height = Some (Double 40), isEditing = Some True\<rparr>],
             activeElement := Some 0, selectedTool := None\<rparr>,
          focused = Some 0\<rparr> \<and>
   selectedTool (st second_text_page) = Some ''text'' \<and>
   pointer_down True (Some (div_at_origin loaded_state)) (mouse_at 80 90) second_text_page =
     Inr \<lparr>st = (st second_text_page)
            \<lparr>elements :=
               [\<lparr>el_type = Some ''text'', el_x = Double 50, el_y = Double 60,
                 content = Some ''Text goes here'', width = Some (Double 200),
                 height = Some (Double 40), isEditing = Some False\<rparr>,
                \<lparr>el_type = Some ''text'', el_x = Double 80, el_y = Double 90,
                 content = Some ''Text goes here'', width = Some (Double 200),
                 height = Some (Double 40), isEditing = Some True\<rparr>],
             activeElement := Some 1, selectedTool := None\<rparr>,
          focused = Some 1\<rparr>"
proof -
  have first: "selectedTool (st text_tool_page) = Some ''text''"
    "elements (st text_tool_page) = []" "focused text_tool_page = None"
    by (simp_all add: text_tool_page_def sample_eval)
  have second: "selectedTool (st second_text_page) = Some ''text''"
    "elements (st second_text_page) =
       [\<lparr>el_type = Some ''text'', el_x = Double 50, el_y = Double 60,
         content = Some ''Text goes here'', width = Some (Double 200),
         height = Some (Double 40), isEditing = Some True\<rparr>]"
    "focused second_text_page = Some 0"
    by (simp_all add: second_text_page_def text_placed_def sample_eval)
  have pts: "pointer (div_at_origin loaded_state) (mouse_at 50 60) = \<lparr>pt_x = Double 50, pt_y = Double 60\<rparr>"
    "pointer (div_at_origin loaded_state) (mouse_at 80 90) = \<lparr>pt_x = Double 80, pt_y = Double 90\<rparr>"
    by (simp_all add: pointer_def div_at_origin_def editedImage_def mouse_at_def double_eval)
  from text_creation[OF first(1), where inside = True and node = "div_at_origin loaded_state"
      and e = "mouse_at 50 60"]
    text_creation[OF second(1), where inside = True and node = "div_at_origin loaded_state"
      and e = "mouse_at 80 90"]
  show ?thesis
    by (simp add: first second pts textarea_def)
qed

text \<open>
  C2 as stated fails for a pointer-down on the canvas around the composed subtree.
  With the subtree laid out at (100, 100), the text tool selected and no element yet, a
  pointer-down at (50, 60) creates the text element at (-50, -40), and afterwards no
  element is active, where the claim has the active index 0.
\<close>

theorem text_creation_margin_counterexample:
  "selectedTool (st text_tool_page) = Some ''text'' \<and>
   length (elements (st text_tool_page)) = 0 \<and>
   pointer_down False (Some (div_offset loaded_state)) (mouse_at 50 60) text_tool_page =
     Inr \<lparr>st = (st text_tool_page)
            \<lparr>elements :=
               [\<lparr>el_type = Some ''text'', el_x = Double (- 50), el_y = Double (- 40),
                 content = Some ''Text goes here'', width = Some (Double 200),
                 height = Some (Double 40), isEditing = Some True\<rparr>],
             activeElement := None, selectedTool := None\<rparr>,
          focused = Some 0\<rparr>"
  by (simp add: pointer_down_def text_tool_page_def div_offset_def page_eval sample_eval)

subsection \<open>Pointer-up without the composed subtree\<close>

text \<open>
  C10. When the ref is empty, pointer-up returns without a change only while a draw is
  in progress. With no draw in progress it evaluates
  \<^verbatim>\<open>editedImageRef.current!.getBoundingClientRect()\<close> on \<^verbatim>\<open>null\<close> and throws.
\<close>

theorem pointer_up_without_ref:
  "handleMouseUp None e s = (if isDrawing s then Inr s else Inl TypeError)"
  by (simp add: handleMouseUp_def)

subsection \<open>Selecting a tool\<close>

text \<open>
  C4, as amended. Without an image, selecting a tool changes nothing. With an image,
  every selection clears the active element; selecting the tool that is active sets the
  tool to none; selecting a tool that is not active activates it, and selecting it
  again sets the tool to none. Selecting twice the tool that was active to begin with
  leaves it active.
\<close>

theorem tool_select_toggle:
  "(falsy (image_src s) \<longrightarrow> handleToolSelect t s = s) \<and>
   (\<not> falsy (image_src s) \<longrightarrow>
      activeElement (handleToolSelect t s) = None \<and>
      (selectedTool s = Some t \<longrightarrow>
         selectedTool (handleToolSelect t s) = None \<and>
         selectedTool (handleToolSelect t (handleToolSelect t s)) = Some t) \<and>
      (selectedTool s \<noteq> Some t \<longrightarrow>
         selectedTool (handleToolSelect t s) = Some t \<and>
         selectedTool (handleToolSelect t (handleToolSelect t s)) = None))"
  by (auto simp add: handleToolSelect_def)

theorem tool_select_toggle_witness:
  "falsy (image_src initial_state) \<and>
   handleToolSelect ''text'' initial_state = initial_state \<and>
   \<not> falsy (image_src loaded_state) \<and> selectedTool loaded_state \<noteq> Some ''text'' \<and>
   activeElement (handleToolSelect ''text'' loaded_state) = None \<and>
   selectedTool (handleToolSelect ''text'' loaded_state) = Some ''text'' \<and>
   selectedTool (handleToolSelect ''text'' (handleToolSelect ''text'' loaded_state)) = None \<and>
   selectedTool (handleToolSelect ''text''
     (handleToolSelect ''text'' (handleToolSelect ''text'' loaded_state))) = Some ''text''"
proof -
  have 1: "falsy (image_src initial_state)"
    by (simp add: initial_state_def falsy_def)
  have 2: "\<not> falsy (image_src loaded_state)" "selectedTool loaded_state \<noteq> Some ''text''"
    by (simp_all add: loaded_state_def reader_onload_def initial_state_def falsy_def)
  have 3: "\<not> falsy (image_src (handleToolSelect ''text'' loaded_state))"
    using 2 by (simp add: handleToolSelect_def)
  from tool_select_toggle[of initial_state "''text''"]
    tool_select_toggle[of loaded_state "''text''"]
    tool_select_toggle[of "handleToolSelect ''text'' loaded_state" "''text''"]
  show ?thesis
    using 1 2 3 by simp
qed

text \<open>
  C4 as stated fails where the selected tool is the active one: with an image loaded and
  the text tool active, select(text) then select(text) ends with the text tool active.
\<close>

theorem tool_select_twice_counterexample:
  "selectedTool (handleToolSelect ''text'' loaded_state) = Some ''text'' \<and>
   selectedTool (handleToolSelect ''text''
     (handleToolSelect ''text'' (handleToolSelect ''text'' loaded_state))) \<noteq> None"
  by (simp add: handleToolSelect_def loaded_state_def reader_onload_def initial_state_def
      falsy_def)

subsection \<open>Export\<close>

text \<open>
  C8. Without the composed subtree, Save and Copy do nothing and raise nothing; Copy
  also does nothing, and raises nothing, when the rasterizer yields no blob.
\<close>

theorem export_guards:
  "handleSave toPng None = Inr [] \<and>
   handleCopyToClipboard toBlob None = Inr [] \<and>
   (toBlob node = Inr None \<longrightarrow> handleCopyToClipboard toBlob (Some node) = Inr [])"
  by (simp add: handleSave_def handleCopyToClipboard_def)

theorem export_guards_witness:
  "handleSave (\<lambda>node. Inr ''data:image/png;base64,'') None = Inr [] \<and>
   handleCopyToClipboard (\<lambda>node. Inr (None :: string option)) None = Inr [] \<and>
   handleCopyToClipboard (\<lambda>node. Inr (None :: string option))
     (Some (div_at_origin loaded_state)) = Inr []"
  using export_guards[of "\<lambda>node. Inr ''data:image/png;base64,''"
      "\<lambda>node. Inr (None :: string option)" "div_at_origin loaded_state"]
  by simp

text \<open>
  C7, as amended. Save and Copy call the rasterizer on the node the ref holds. For the
  composed subtree that node carries the zoom in its own style,
  \<^verbatim>\<open>transform: scale(${zoom})\<close>; nothing removes it before the export, and two zoom
  factors give the rasterizer two inputs.
\<close>

theorem export_reads_zoomed_subtree:
  "handleSave toPng (Some (editedImage r p s)) =
     (case toPng (editedImage r p s) of
        Inl err \<Rightarrow> Inl err
      | Inr dataUrl \<Rightarrow> Inr [Download ''edited-image.png'' dataUrl]) \<and>
   handleCopyToClipboard toBlob (Some (editedImage r p s)) =
     (case toBlob (editedImage r p s) of
        Inl err \<Rightarrow> Inl err
      | Inr None \<Rightarrow> Inr []
      | Inr (Some blob) \<Rightarrow> Inr [ClipboardWrite ''image/png'' blob]) \<and>
   style_transform_scale (editedImage r p s) = zoom p \<and>
   (zoom p \<noteq> zoom p' \<longrightarrow> editedImage r p s \<noteq> editedImage r p' s)"
  by (auto simp add: handleSave_def handleCopyToClipboard_def editedImage_def)

theorem export_reads_zoomed_subtree_witness:
  "zoom (initial_presentation\<lparr>zoom := Double 3\<rparr>) \<noteq> zoom initial_presentation \<and>
   style_transform_scale
     (editedImage \<lparr>rect_left = Double 0, rect_top = Double 0\<rparr>
        (initial_presentation\<lparr>zoom := Double 3\<rparr>) loaded_state) = Double 3 \<and>
   editedImage \<lparr>rect_left = Double 0, rect_top = Double 0\<rparr>
     (initial_presentation\<lparr>zoom := Double 3\<rparr>) loaded_state \<noteq>
   editedImage \<lparr>rect_left = Double 0, rect_top = Double 0\<rparr> initial_presentation loaded_state"
proof -
  have "zoom (initial_presentation\<lparr>zoom := Double 3\<rparr>) \<noteq> zoom initial_presentation"
    by (simp add: initial_presentation_def double_eval)
  with export_reads_zoomed_subtree[where toPng = Inr and toBlob = "\<lambda>node. Inr (Some node)"
      and r = "\<lparr>rect_left = Double 0, rect_top = Double 0\<rparr>"
      and p = "initial_presentation\<lparr>zoom := Double 3\<rparr>"
      and s = loaded_state and p' = initial_presentation]
  show ?thesis
    by simp
qed

text \<open>
  C7 as stated fails: a rasterizer that returns what it is given shows that, at zoom 3,
  Save hands over a node scaled by 3, and that its export is not its export at zoom 1.
\<close>

theorem export_zoom_counterexample:
  "handleSave Inr
     (Some (editedImage \<lparr>rect_left = Double 0, rect_top = Double 0\<rparr>
        (initial_presentation\<lparr>zoom := Double 3\<rparr>) loaded_state)) =
     Inr [Download ''edited-image.png''
       (editedImage \<lparr>rect_left = Double 0, rect_top = Double 0\<rparr>
          (initial_presentation\<lparr>zoom := Double 3\<rparr>) loaded_state)] \<and>
   style_transform_scale
     (editedImage \<lparr>rect_left = Double 0, rect_top = Double 0\<rparr>
        (initial_presentation\<lparr>zoom := Double 3\<rparr>) loaded_state) = Double 3 \<and>
   zoom initial_presentation = Double 1 \<and>
   handleSave Inr
     (Some (editedImage \<lparr>rect_left = Double 0, rect_top = Double 0\<rparr>
        (initial_presentation\<lparr>zoom := Double 3\<rparr>) loaded_state)) \<noteq>
   handleSave Inr
     (Some (editedImage \<lparr>rect_left = Double 0, rect_top = Double 0\<rparr>
        initial_presentation loaded_state)) \<and>
   handleCopyToClipboard (\<lambda>node. Inr (Some node))
     (Some (editedImage \<lparr>rect_left = Double 0, rect_top = Double 0\<rparr>
        (initial_presentation\<lparr>zoom := Double 3\<rparr>) loaded_state)) \<noteq>
   handleCopyToClipboard (\<lambda>node. Inr (Some node))
     (Some (editedImage \<lparr>rect_left = Double 0, rect_top = Double 0\<rparr>
        initial_presentation loaded_state))"
  by (simp add: handleSave_def handleCopyToClipboard_def editedImage_def
      initial_presentation_def double_eval)

subsection \<open>Pasting\<close>

text \<open>
  C9 asks that a paste with several image items loads the first one only. The loop
  starts a read for each of them: for a clipboard holding a PNG, an HTML fragment and a
  JPEG, both images are read.
\<close>

lemma paste_reads_every_image:
  assumes "\<forall>item \<in> set items. getAsFile item \<noteq> None"
  shows "handlePaste (Some items) =
    (map (\<lambda>item. the (getAsFile item))
       (filter (\<lambda>item. indexOf (item_type item) ''image'' \<noteq> - 1) items), None)"
  using assms by (induction items) (auto simp add: handlePaste_def)

theorem paste_two_images:
  "handlePaste (Some [\<lparr>item_type = ''image/png'', getAsFile = Some ''first''\<rparr>,
                      \<lparr>item_type = ''text/html'', getAsFile = None\<rparr>,
                      \<lparr>item_type = ''image/jpeg'', getAsFile = Some ''second''\<rparr>]) =
     ([''first'', ''second''], None)"
  by (simp add: handlePaste_def indexOf_def)

subsection \<open>Dragging an element\<close>

text \<open>One drag step, and a run of exact drag steps.\<close>

lemma drag_step:
  assumes "isDragging s" and "activeElement s = Some i" and "i < length (elements s)"
  shows "el_x (elements (handleMouseMove (Some node) e s) ! i) =
           el_x (elements s ! i) + (pt_x (pointer node e) - pt_x (dragStart s))"
    and "el_y (elements (handleMouseMove (Some node) e s) ! i) =
           el_y (elements s ! i) + (pt_y (pointer node e) - pt_y (dragStart s))"
    and "dragStart (handleMouseMove (Some node) e s) = pointer node e"
    and "isDragging (handleMouseMove (Some node) e s)"
    and "activeElement (handleMouseMove (Some node) e s) = Some i"
    and "length (elements (handleMouseMove (Some node) e s)) = length (elements s)"
  using assms by (simp_all add: handleMouseMove_def Let_def nth_map_index length_map_index)

lemma drag_moves_exact:
  assumes "isDragging s" and "activeElement s = Some i" and "i < length (elements s)"
    and "exact_moves ms s"
  shows "val (el_x (elements (drag_moves ms s) ! i)) =
           val (el_x (elements s ! i)) +
           sum_list (map (\<lambda>d. val (pt_x d)) (deltas (dragStart s) (samples ms))) \<and>
         val (el_y (elements (drag_moves ms s) ! i)) =
           val (el_y (elements s ! i)) +
           sum_list (map (\<lambda>d. val (pt_y d)) (deltas (dragStart s) (samples ms))) \<and>
         sum_list (map (\<lambda>d. val (pt_x d)) (deltas (dragStart s) (samples ms))) =
           (if ms = [] then 0 else val (pt_x (last (samples ms))) - val (pt_x (dragStart s))) \<and>
         sum_list (map (\<lambda>d. val (pt_y d)) (deltas (dragStart s) (samples ms))) =
           (if ms = [] then 0 else val (pt_y (last (samples ms))) - val (pt_y (dragStart s)))"
  using assms
proof (induction ms arbitrary: s)
  case Nil
  then show ?case by (simp add: samples_def)
next
  case (Cons m ms)
  obtain node e where m: "m = (node, e)" by (cases m)
  let ?s = "handleMouseMove (Some node) e s"
  note step = drag_step[OF Cons.prems(1,2,3), of node e]
  have len: "i < length (elements ?s)"
    using step(6) Cons.prems(3) by simp
  from Cons.prems(4) have ex: "exact_move node e s" and rest: "exact_moves ms ?s"
    by (simp_all add: m)
  from ex Cons.prems(2,3)
  have exact: "val (pt_x (pointer node e) - pt_x (dragStart s)) =
         val (pt_x (pointer node e)) - val (pt_x (dragStart s))"
    "val (pt_y (pointer node e) - pt_y (dragStart s)) =
         val (pt_y (pointer node e)) - val (pt_y (dragStart s))"
    "val (el_x (elements s ! i) + (pt_x (pointer node e) - pt_x (dragStart s))) =
         val (el_x (elements s ! i)) + val (pt_x (pointer node e) - pt_x (dragStart s))"
    "val (el_y (elements s ! i) + (pt_y (pointer node e) - pt_y (dragStart s))) =
         val (el_y (elements s ! i)) + val (pt_y (pointer node e) - pt_y (dragStart s))"
    by (simp_all add: exact_move_def exact_sub_def exact_add_def Let_def)
  from Cons.IH[OF step(4) step(5) len rest] step(1,2,3) exact
  show ?case
    by (cases "ms = []") (simp_all add: m samples_def)
qed

text \<open>Integers below \<open>2 ^ 53\<close> in magnitude are doubles, so adding and subtracting
  integer pixel coordinates is exact.\<close>

lemma round_even_of_int: "round_even (of_int m) = m"
  by (simp add: round_even_def)

lemma fl_of_int:
  assumes "\<bar>n\<bar> < 2 ^ 53"
  shows "fl (of_int n) = of_int n"
proof (cases "n = 0")
  case True
  then show ?thesis by (simp add: fl_def)
next
  case False
  define q :: rat where "q = \<bar>of_int n\<bar>"
  have q0: "0 < q"
    using False by (simp add: q_def)
  have "1 \<le> \<bar>n\<bar>"
    using False by linarith
  then have "(of_int 1 :: rat) \<le> of_int \<bar>n\<bar>"
    by (simp only: of_int_le_iff)
  then have q1: "1 \<le> q"
    by (simp add: q_def)
  have "(of_int \<bar>n\<bar> :: rat) < of_int (2 ^ 53)"
    using assms by (simp only: of_int_less_iff)
  then have q53: "q < 2 powi 53"
    by (simp add: q_def)
  define k where "k = ilog2 q"
  have k0: "0 \<le> k"
  proof (rule ccontr)
    assume "\<not> 0 \<le> k"
    then have "k + 1 \<le> 0" by simp
    then have "(2::rat) powi (k + 1) \<le> 2 powi 0"
      by (rule power_int_increasing) simp
    with ilog2_bounds(2)[OF q0] q1 show False
      unfolding k_def by simp
  qed
  have k52: "k \<le> 52"
  proof (rule ccontr)
    assume "\<not> k \<le> 52"
    then have "53 \<le> k" by simp
    then have "(2::rat) powi 53 \<le> 2 powi k"
      by (rule power_int_increasing) simp
    with ilog2_bounds(1)[OF q0] q53 show False
      unfolding k_def by linarith
  qed
  define j where "j = nat (52 - k)"
  have "k - 52 = - int j"
    using k52 by (simp add: j_def)
  then have e: "(2::rat) powi (k - 52) = 1 / 2 ^ j"
    by (simp add: power_int_minus_divide)
  have "of_int n / (2::rat) powi (k - 52) = of_int (n * 2 ^ j)"
    unfolding e by simp
  then have r: "round_even (of_int n / 2 powi (k - 52)) = n * 2 ^ j"
    by (simp only: round_even_of_int)
  have "fl (of_int n) = of_int (round_even (of_int n / 2 powi (k - 52))) * 2 powi (k - 52)"
    using False unfolding fl_def k_def q_def Let_def by simp
  also have "\<dots> = of_int (n * 2 ^ j) * 2 powi (k - 52)"
    unfolding r ..
  also have "\<dots> = of_int (n * 2 ^ j) * (1 / 2 ^ j)"
    unfolding e ..
  also have "\<dots> = of_int n"
    by simp
  finally show ?thesis .
qed

lemma integer_ops_exact:
  assumes "val a \<in> \<int>" and "val b \<in> \<int>"
  shows "\<bar>val a + val b\<bar> < 2 ^ 53 \<Longrightarrow> val (a + b) = val a + val b"
    and "\<bar>val a - val b\<bar> < 2 ^ 53 \<Longrightarrow> val (a - b) = val a - val b"
proof -
  from assms obtain m n where mn: "val a = of_int m" "val b = of_int n"
    by (auto elim!: Ints_cases)
  show "val (a + b) = val a + val b" if "\<bar>val a + val b\<bar> < 2 ^ 53"
  proof -
    from that have "(of_int \<bar>m + n\<bar> :: rat) < of_int (2 ^ 53)"
      by (simp add: mn)
    then have "\<bar>m + n\<bar> < 2 ^ 53"
      by (simp only: of_int_less_iff)
    from fl_of_int[OF this] show ?thesis
      by (simp add: plus_double_def mn)
  qed
  show "val (a - b) = val a - val b" if "\<bar>val a - val b\<bar> < 2 ^ 53"
  proof -
    from that have "(of_int \<bar>m - n\<bar> :: rat) < of_int (2 ^ 53)"
      by (simp add: mn)
    then have "\<bar>m - n\<bar> < 2 ^ 53"
      by (simp only: of_int_less_iff)
    from fl_of_int[OF this] show ?thesis
      by (simp add: minus_double_def mn)
  qed
qed

lemma integer_moves_exact_offset:
  assumes "isDragging s" and "activeElement s = Some i" and "i < length (elements s)"
    and "val (el_x (elements s ! i)) \<in> \<int>" and "val (el_y (elements s ! i)) \<in> \<int>"
    and "val (pt_x (dragStart s)) \<in> \<int>" and "val (pt_y (dragStart s)) \<in> \<int>"
    and "\<bar>val (pt_x (dragStart s))\<bar> \<le> 2 ^ 50" and "\<bar>val (pt_y (dragStart s))\<bar> \<le> 2 ^ 50"
    and "\<bar>val (el_x (elements s ! i)) - val (pt_x (dragStart s))\<bar> \<le> 2 ^ 51"
    and "\<bar>val (el_y (elements s ! i)) - val (pt_y (dragStart s))\<bar> \<le> 2 ^ 51"
    and "\<forall>p \<in> set (samples ms). val (pt_x p) \<in> \<int> \<and> val (pt_y p) \<in> \<int> \<and>
           \<bar>val (pt_x p)\<bar> \<le> 2 ^ 50 \<and> \<bar>val (pt_y p)\<bar> \<le> 2 ^ 50"
  shows "exact_moves ms s"
  using assms
proof (induction ms arbitrary: s)
  case Nil
  then show ?case by simp
next
  case (Cons m ms)
  obtain node e where m: "m = (node, e)" by (cases m)
  let ?p = "pointer node e"
  let ?s = "handleMouseMove (Some node) e s"
  let ?el = "elements s ! i"
  from Cons.prems(12) have p: "val (pt_x ?p) \<in> \<int>" "val (pt_y ?p) \<in> \<int>"
    "\<bar>val (pt_x ?p)\<bar> \<le> 2 ^ 50" "\<bar>val (pt_y ?p)\<bar> \<le> 2 ^ 50"
    and rest: "\<forall>p \<in> set (samples ms). val (pt_x p) \<in> \<int> \<and> val (pt_y p) \<in> \<int> \<and>
           \<bar>val (pt_x p)\<bar> \<le> 2 ^ 50 \<and> \<bar>val (pt_y p)\<bar> \<le> 2 ^ 50"
    by (simp_all add: m samples_def)
  have dx: "val (pt_x ?p - pt_x (dragStart s)) = val (pt_x ?p) - val (pt_x (dragStart s))"
    using p(3) Cons.prems(8) by (intro integer_ops_exact p(1) Cons.prems(6)) simp
  have dy: "val (pt_y ?p - pt_y (dragStart s)) = val (pt_y ?p) - val (pt_y (dragStart s))"
    using p(4) Cons.prems(9) by (intro integer_ops_exact p(2) Cons.prems(7)) simp
  have dxi: "val (pt_x ?p - pt_x (dragStart s)) \<in> \<int>" "val (pt_y ?p - pt_y (dragStart s)) \<in> \<int>"
    unfolding dx dy using p(1,2) Cons.prems(6,7) by simp_all
  have ax: "val (el_x ?el + (pt_x ?p - pt_x (dragStart s))) =
      val (el_x ?el) + val (pt_x ?p - pt_x (dragStart s))"
    using p(3) Cons.prems(10) by (intro integer_ops_exact Cons.prems(4) dxi) (simp add: dx)
  have ay: "val (el_y ?el + (pt_y ?p - pt_y (dragStart s))) =
      val (el_y ?el) + val (pt_y ?p - pt_y (dragStart s))"
    using p(4) Cons.prems(11) by (intro integer_ops_exact Cons.prems(5) dxi) (simp add: dy)
  have now: "exact_move node e s"
    using Cons.prems(2,3) dx dy ax ay
    by (simp add: exact_move_def exact_sub_def exact_add_def Let_def)
  note step = drag_step[OF Cons.prems(1,2,3), of node e]
  have len: "i < length (elements ?s)"
    using step(6) Cons.prems(3) by simp
  have "exact_moves ms ?s"
  proof (rule Cons.IH[OF step(4) step(5) len _ _ _ _ _ _ _ _ rest])
    show "val (el_x (elements ?s ! i)) \<in> \<int>"
      unfolding step(1) ax dx using Cons.prems(4,6) p(1) by simp
    show "val (el_y (elements ?s ! i)) \<in> \<int>"
      unfolding step(2) ay dy using Cons.prems(5,7) p(2) by simp
    show "val (pt_x (dragStart ?s)) \<in> \<int>" "val (pt_y (dragStart ?s)) \<in> \<int>"
      "\<bar>val (pt_x (dragStart ?s))\<bar> \<le> 2 ^ 50" "\<bar>val (pt_y (dragStart ?s))\<bar> \<le> 2 ^ 50"
      unfolding step(3) using p by simp_all
    show "\<bar>val (el_x (elements ?s ! i)) - val (pt_x (dragStart ?s))\<bar> \<le> 2 ^ 51"
      unfolding step(1) step(3) ax dx using Cons.prems(10) by simp
    show "\<bar>val (el_y (elements ?s ! i)) - val (pt_y (dragStart ?s))\<bar> \<le> 2 ^ 51"
      unfolding step(2) step(3) ay dy using Cons.prems(11) by simp
  qed
  with now show ?case
    by (simp add: m)
qed

lemma integer_moves_exact:
  assumes "isDragging s" and "activeElement s = Some i" and "i < length (elements s)"
    and "val (el_x (elements s ! i)) \<in> \<int>" and "val (el_y (elements s ! i)) \<in> \<int>"
    and "\<bar>val (el_x (elements s ! i))\<bar> \<le> 2 ^ 50" and "\<bar>val (el_y (elements s ! i))\<bar> \<le> 2 ^ 50"
    and "val (pt_x (dragStart s)) \<in> \<int>" and "val (pt_y (dragStart s)) \<in> \<int>"
    and "\<bar>val (pt_x (dragStart s))\<bar> \<le> 2 ^ 50" and "\<bar>val (pt_y (dragStart s))\<bar> \<le> 2 ^ 50"
    and "\<forall>p \<in> set (samples ms). val (pt_x p) \<in> \<int> \<and> val (pt_y p) \<in> \<int> \<and>
           \<bar>val (pt_x p)\<bar> \<le> 2 ^ 50 \<and> \<bar>val (pt_y p)\<bar> \<le> 2 ^ 50"
  shows "exact_moves ms s"
proof (rule integer_moves_exact_offset[OF assms(1,2,3,4,5,8,9,10,11) _ _ assms(12)])
  show "\<bar>val (el_x (elements s ! i)) - val (pt_x (dragStart s))\<bar> \<le> 2 ^ 51"
    using assms(6,10) by simp
  show "\<bar>val (el_y (elements s ! i)) - val (pt_y (dragStart s))\<bar> \<le> 2 ^ 51"
    using assms(7,11) by simp
qed


text \<open>
  C3, as amended. While an element is being dragged, each pointer-move adds to its
  position the delta between the pointer and the previous sample, both operations
  rounding as doubles do. Over a run of moves in which none of these operations rounds
  (as with integer pixel coordinates), the position ends as the initial one plus the sum
  of the deltas, and that sum is the last sample minus the sample the drag started
  from: only the total displacement counts, not the way it was split into samples.
\<close>

theorem drag_translation_exact:
  assumes "isDragging s" and "activeElement s = Some i" and "i < length (elements s)"
    and "exact_moves ms s"
  shows "el_x (elements (handleMouseMove (Some node) e s) ! i) =
           el_x (elements s ! i) + (pt_x (pointer node e) - pt_x (dragStart s)) \<and>
         el_y (elements (handleMouseMove (Some node) e s) ! i) =
           el_y (elements s ! i) + (pt_y (pointer node e) - pt_y (dragStart s)) \<and>
         val (el_x (elements (drag_moves ms s) ! i)) =
           val (el_x (elements s ! i)) +
           sum_list (map (\<lambda>d. val (pt_x d)) (deltas (dragStart s) (samples ms))) \<and>
         val (el_y (elements (drag_moves ms s) ! i)) =
           val (el_y (elements s ! i)) +
           sum_list (map (\<lambda>d. val (pt_y d)) (deltas (dragStart s) (samples ms))) \<and>
         (ms \<noteq> [] \<longrightarrow>
            val (el_x (elements (drag_moves ms s) ! i)) =
              val (el_x (elements s ! i)) +
              (val (pt_x (last (samples ms))) - val (pt_x (dragStart s))) \<and>
            val (el_y (elements (drag_moves ms s) ! i)) =
              val (el_y (elements s ! i)) +
              (val (pt_y (last (samples ms))) - val (pt_y (dragStart s))))"
  using drag_moves_exact[OF assms] drag_step(1,2)[OF assms(1,2,3), of node e]
  by simp

lemmas drag_eval = dragging_state_def text_placed_def fraction_dragging_state_def
  handleMouseMove_def map_index_def exact_move_def exact_sub_def exact_add_def samples_def
  sample_eval

theorem drag_translation_exact_witness:
  "isDragging dragging_state \<and> activeElement dragging_state = Some 0 \<and>
   0 < length (elements dragging_state) \<and>
   exact_moves [(div_at_origin loaded_state, mouse_at 60 70),
                (div_at_origin loaded_state, mouse_at 58 90)] dragging_state \<and>
   exact_moves [(div_at_origin loaded_state, mouse_at 58 90)] dragging_state \<and>
   el_x (elements dragging_state ! 0) = Double 50 \<and>
   el_y (elements dragging_state ! 0) = Double 60 \<and>
   dragStart dragging_state = \<lparr>pt_x = Double 55, pt_y = Double 65\<rparr> \<and>
   val (el_x (elements (drag_moves [(div_at_origin loaded_state, mouse_at 60 70),
                                    (div_at_origin loaded_state, mouse_at 58 90)] dragging_state) ! 0)) = 53 \<and>
   val (el_y (elements (drag_moves [(div_at_origin loaded_state, mouse_at 60 70),
                                    (div_at_origin loaded_state, mouse_at 58 90)] dragging_state) ! 0)) = 85 \<and>
   val (el_x (elements (drag_moves [(div_at_origin loaded_state, mouse_at 58 90)] dragging_state) ! 0)) = 53 \<and>
   val (el_y (elements (drag_moves [(div_at_origin loaded_state, mouse_at 58 90)] dragging_state) ! 0)) = 85"
proof -
  have st: "isDragging dragging_state" "activeElement dragging_state = Some 0"
    "0 < length (elements dragging_state)"
    by (simp_all add: drag_eval)
  have ex: "exact_moves [(div_at_origin loaded_state, mouse_at 60 70),
                         (div_at_origin loaded_state, mouse_at 58 90)] dragging_state"
    "exact_moves [(div_at_origin loaded_state, mouse_at 58 90)] dragging_state"
    by (simp_all add: drag_eval)
  have vals: "el_x (elements dragging_state ! 0) = Double 50"
    "el_y (elements dragging_state ! 0) = Double 60"
    "dragStart dragging_state = \<lparr>pt_x = Double 55, pt_y = Double 65\<rparr>"
    "last (samples [(div_at_origin loaded_state, mouse_at 60 70),
                    (div_at_origin loaded_state, mouse_at 58 90)]) = \<lparr>pt_x = Double 58, pt_y = Double 90\<rparr>"
    "last (samples [(div_at_origin loaded_state, mouse_at 58 90)]) = \<lparr>pt_x = Double 58, pt_y = Double 90\<rparr>"
    by (simp_all add: drag_eval)
  note two_samples = drag_translation_exact[OF st ex(1),
      of "div_at_origin loaded_state" "mouse_at 58 90",
      THEN conjunct2, THEN conjunct2, THEN conjunct2, THEN conjunct2]
  note one_sample = drag_translation_exact[OF st ex(2),
      of "div_at_origin loaded_state" "mouse_at 58 90",
      THEN conjunct2, THEN conjunct2, THEN conjunct2, THEN conjunct2]
  from two_samples one_sample show ?thesis
    using st ex by (simp add: vals)
qed

text \<open>
  C3 as stated fails where an addition rounds. An element at x = 0.1 is picked up at
  x = 0 and dragged to x = 0.5. Sampled at 0.2 and at 0.5 it ends at
  0.6000000000000001; sampled at 0.5 only it ends at 0.6.
\<close>

theorem drag_split_counterexample:
  "isDragging fraction_dragging_state \<and> activeElement fraction_dragging_state = Some 0 \<and>
   el_x (elements fraction_dragging_state ! 0) = js_number (1/10) \<and>
   dragStart fraction_dragging_state = \<lparr>pt_x = Double 0, pt_y = Double 0\<rparr> \<and>
   last (samples [(div_at_origin loaded_state, mouse_at (1/5) 0),
                  (div_at_origin loaded_state, mouse_at (1/2) 0)]) =
   last (samples [(div_at_origin loaded_state, mouse_at (1/2) 0)]) \<and>
   el_x (elements (drag_moves [(div_at_origin loaded_state, mouse_at (1/5) 0),
                               (div_at_origin loaded_state, mouse_at (1/2) 0)]
                     fraction_dragging_state) ! 0) =
     Double (1351079888211149 / 2251799813685248) \<and>
   el_x (elements (drag_moves [(div_at_origin loaded_state, mouse_at (1/2) 0)]
                     fraction_dragging_state) ! 0) =
     Double (5404319552844595 / 9007199254740992) \<and>
   el_x (elements (drag_moves [(div_at_origin loaded_state, mouse_at (1/5) 0),
                               (div_at_origin loaded_state, mouse_at (1/2) 0)]
                     fraction_dragging_state) ! 0) \<noteq>
   el_x (elements (drag_moves [(div_at_origin loaded_state, mouse_at (1/2) 0)]
                     fraction_dragging_state) ! 0)"
  by (simp add: drag_eval)

subsection \<open>Edit mode\<close>

text \<open>
  The two handlers that enter edit mode leave the flags of the other elements as they
  are: nothing in the handlers makes edit mode exclusive.
\<close>

lemma double_click_keeps_other_flags:
  assumes "handleTextDoubleClick i s = Inr s'" and "j \<noteq> i"
  shows "isEditing (elements s' ! j) = isEditing (elements s ! j)"
  using assms by (auto simp: handleTextDoubleClick_def split: if_splits)

lemma text_creation_keeps_other_flags:
  assumes "j < length (elements s)"
  shows "isEditing (elements (handleMouseDown ref e s) ! j) = isEditing (elements s ! j)"
  using assms by (simp add: handleMouseDown_def Let_def nth_append split: option.splits)












subsection \<open>Zooming\<close>

text \<open>One zoom step keeps the zoom factor between the doubles 0.1 and 3.\<close>

lemma val_min: "val (min a b) = min (val a) (val b)"
  by (simp add: min_def less_eq_double_def)

lemma val_max: "val (max a b) = max (val a) (val b)"
  by (simp add: max_def less_eq_double_def)

lemma three: "fl 3 = 3"
  by (simp add: fl_eval)

lemma handleZoomIn_range:
  assumes "js_number (1/10) \<le> zoom p" and "zoom p \<le> js_number 3"
  shows "js_number (1/10) \<le> zoom (handleZoomIn p) \<and> zoom (handleZoomIn p) \<le> js_number 3"
proof -
  have "2 * fl (1/10) \<le> val (zoom p) + fl (1/10)"
    using assms(1) by (simp add: less_eq_double_def js_number_def)
  from fl_ge[OF _ this] have "fl (1/10) \<le> fl (val (zoom p) + fl (1/10))"
    by (simp add: tenth)
  then show ?thesis
    by (simp add: handleZoomIn_def less_eq_double_def js_number_def plus_double_def val_min tenth
        three)
qed

lemma handleZoomOut_range:
  assumes "js_number (1/10) \<le> zoom p" and "zoom p \<le> js_number 3"
  shows "js_number (1/10) \<le> zoom (handleZoomOut p) \<and> zoom (handleZoomOut p) \<le> js_number 3"
proof -
  from assms have z: "fl (1/10) \<le> val (zoom p)" "val (zoom p) \<le> 3"
    by (simp_all add: less_eq_double_def js_number_def fl_eval)
  have "fl (val (zoom p) - fl (1/10)) \<le> 3"
  proof (cases "val (zoom p) - fl (1/10) = 0")
    case True
    then show ?thesis by (simp add: fl_def)
  next
    case False
    with z have "0 < val (zoom p) - fl (1/10)" "val (zoom p) - fl (1/10) \<le> 3 - fl (1/10)"
      by simp_all
    from fl_le[OF this] show ?thesis
      by (simp add: tenth)
  qed
  then show ?thesis
    by (simp add: handleZoomOut_def less_eq_double_def js_number_def minus_double_def val_max
        fl_eval)
qed

lemma zoom_steps_range:
  assumes "js_number (1/10) \<le> zoom p" and "zoom p \<le> js_number 3"
  shows "js_number (1/10) \<le> zoom (zoom_steps as p) \<and> zoom (zoom_steps as p) \<le> js_number 3"
  using assms
proof (induction as arbitrary: p)
  case Nil
  then show ?case by simp
next
  case (Cons a as)
  show ?case
  proof (cases a)
    case ZoomIn
    with Cons.IH[of "handleZoomIn p"] handleZoomIn_range[OF Cons.prems] show ?thesis
      by simp
  next
    case ZoomOut
    with Cons.IH[of "handleZoomOut p"] handleZoomOut_range[OF Cons.prems] show ?thesis
      by simp
  qed
qed

lemmas zoom_eval = eval_nat_numeral handleZoomIn_def handleZoomOut_def min_def max_def
  initial_presentation_def tenth double_eval

lemma six_zoom_ins:
  "(handleZoomIn ^^ 6) initial_presentation =
     initial_presentation\<lparr>zoom := Double (1801439850948199 / 1125899906842624)\<rparr>"
  by (simp add: zoom_eval)

lemma twenty_zoom_ins:
  "(handleZoomIn ^^ 20) initial_presentation = initial_presentation\<lparr>zoom := Double 3\<rparr>"
proof -
  have "(handleZoomIn ^^ 20) initial_presentation =
      (handleZoomIn ^^ 14) ((handleZoomIn ^^ 6) initial_presentation)"
    using funpow_add[of 14 6 handleZoomIn] by simp
  also have "\<dots> = initial_presentation\<lparr>zoom := Double 3\<rparr>"
    unfolding six_zoom_ins by (simp add: zoom_eval)
  finally show ?thesis .
qed

lemma twenty_five_zoom_outs:
  "(handleZoomOut ^^ 25) (initial_presentation\<lparr>zoom := Double 3\<rparr>) =
     initial_presentation\<lparr>zoom := Double (2251799813685241 / 4503599627370496)\<rparr>"
  by (simp add: zoom_eval)

lemma twenty_eight_zoom_outs:
  "(handleZoomOut ^^ 28) (initial_presentation\<lparr>zoom := Double 3\<rparr>) =
     initial_presentation\<lparr>zoom := Double (7205759403792739 / 36028797018963968)\<rparr>"
proof -
  have "(handleZoomOut ^^ 28) (initial_presentation\<lparr>zoom := Double 3\<rparr>) =
      (handleZoomOut ^^ 3) ((handleZoomOut ^^ 25) (initial_presentation\<lparr>zoom := Double 3\<rparr>))"
    using funpow_add[of 3 25 handleZoomOut] by simp
  also have "\<dots> = initial_presentation\<lparr>zoom := Double (7205759403792739 / 36028797018963968)\<rparr>"
    unfolding twenty_five_zoom_outs by (simp add: zoom_eval)
  finally show ?thesis .
qed

lemma twenty_nine_zoom_outs:
  "(handleZoomOut ^^ 29) (initial_presentation\<lparr>zoom := Double 3\<rparr>) =
     initial_presentation\<lparr>zoom := Double (3602879701896397 / 36028797018963968)\<rparr>"
proof -
  have "(handleZoomOut ^^ 29) (initial_presentation\<lparr>zoom := Double 3\<rparr>) =
      handleZoomOut ((handleZoomOut ^^ 28) (initial_presentation\<lparr>zoom := Double 3\<rparr>))"
    using funpow_add[of 1 28 handleZoomOut] by simp
  also have "\<dots> = initial_presentation\<lparr>zoom := Double (3602879701896397 / 36028797018963968)\<rparr>"
    unfolding twenty_eight_zoom_outs by (simp add: zoom_eval)
  finally show ?thesis .
qed

lemma zoom_saturated:
  "zoom (handleZoomIn (p\<lparr>zoom := js_number 3\<rparr>)) = js_number 3"
  "zoom (handleZoomOut (p\<lparr>zoom := js_number (1/10)\<rparr>)) = js_number (1/10)"
  by (simp_all add: handleZoomIn_def handleZoomOut_def min_def max_def tenth double_eval)

lemma sixteen_tenths: "fl (8/5) = 3602879701896397 / 2251799813685248"
  by (simp add: fl_eval)


text \<open>
  C5, as amended. Starting from the zoom factor 1 of the first render, every sequence
  of zoom-in and zoom-out actions keeps the zoom factor between the double 0.1 and 3,
  so it is never 0 or negative. Six zoom-ins from 1 give 1.6000000000000005, two
  units in the last place above the double 1.6; twenty zoom-ins give exactly 3, where
  zooming in stays. Twenty-five zoom-outs from 3 give 0.49999999999999845, that is
  1/2 - 7/2^52; after twenty-eight zoom-outs from 3 the factor is still above the
  double 0.1, which the twenty-ninth reaches and where zooming out stays.
\<close>

theorem zoom_range_and_samples:
  "js_number (1/10) \<le> zoom (zoom_steps as initial_presentation) \<and>
   zoom (zoom_steps as initial_presentation) \<le> js_number 3 \<and>
   js_number 0 < zoom (zoom_steps as initial_presentation) \<and>
   1/10 < val (js_number (1/10)) \<and>
   zoom initial_presentation = Double 1 \<and>
   val (zoom ((handleZoomIn ^^ 6) initial_presentation)) = val (js_number (8/5)) + 2 / 2 ^ 52 \<and>
   zoom ((handleZoomIn ^^ 20) initial_presentation) = js_number 3 \<and>
   zoom (handleZoomIn (p\<lparr>zoom := js_number 3\<rparr>)) = js_number 3 \<and>
   val (zoom ((handleZoomOut ^^ 25) (initial_presentation\<lparr>zoom := js_number 3\<rparr>))) =
     1/2 - 7 / 2 ^ 52 \<and>
   js_number (1/10) < zoom ((handleZoomOut ^^ 28) (initial_presentation\<lparr>zoom := js_number 3\<rparr>)) \<and>
   zoom ((handleZoomOut ^^ 29) (initial_presentation\<lparr>zoom := js_number 3\<rparr>)) = js_number (1/10) \<and>
   zoom (handleZoomOut (p\<lparr>zoom := js_number (1/10)\<rparr>)) = js_number (1/10)"
proof -
  have three': "js_number 3 = Double 3" and one: "zoom initial_presentation = Double 1"
    by (simp_all add: initial_presentation_def double_eval)
  have "js_number (1/10) \<le> zoom initial_presentation" "zoom initial_presentation \<le> js_number 3"
    by (simp_all add: initial_presentation_def double_eval)
  from zoom_steps_range[OF this, of as]
  have range: "js_number (1/10) \<le> zoom (zoom_steps as initial_presentation)"
    "zoom (zoom_steps as initial_presentation) \<le> js_number 3"
    by simp_all
  have pos: "1/10 < val (js_number (1/10))"
    by (simp add: js_number_def tenth)
  with range(1) have "js_number 0 < zoom (zoom_steps as initial_presentation)"
    by (simp add: less_double_def less_eq_double_def js_number_def fl_def)
  moreover have "val (zoom ((handleZoomIn ^^ 6) initial_presentation)) =
      val (js_number (8/5)) + 2 / 2 ^ 52"
    unfolding six_zoom_ins js_number_def sixteen_tenths by simp
  moreover have "zoom ((handleZoomIn ^^ 20) initial_presentation) = js_number 3"
    unfolding twenty_zoom_ins three' by simp
  moreover have "val (zoom ((handleZoomOut ^^ 25) (initial_presentation\<lparr>zoom := js_number 3\<rparr>))) =
      1/2 - 7 / 2 ^ 52"
    unfolding three' twenty_five_zoom_outs by simp
  moreover have "js_number (1/10) <
      zoom ((handleZoomOut ^^ 28) (initial_presentation\<lparr>zoom := js_number 3\<rparr>))"
    unfolding three' twenty_eight_zoom_outs by (simp add: js_number_def tenth less_double_def)
  moreover have "zoom ((handleZoomOut ^^ 29) (initial_presentation\<lparr>zoom := js_number 3\<rparr>)) =
      js_number (1/10)"
    unfolding three' twenty_nine_zoom_outs by (simp add: js_number_def tenth)
  ultimately show ?thesis
    using range pos one zoom_saturated[of p] by simp
qed

text \<open>
  C5 as stated fails at its last sample: twenty-five zoom-outs from 3 leave the zoom
  factor just below 1/2, far from 0.1. Its first sample holds only up to rounding: six
  zoom-ins from 1 do not give the double 1.6.
\<close>

theorem zoom_samples_counterexample:
  "zoom ((handleZoomOut ^^ 25) (initial_presentation\<lparr>zoom := Double 3\<rparr>)) \<noteq> js_number (1/10) \<and>
   val (zoom ((handleZoomOut ^^ 25) (initial_presentation\<lparr>zoom := Double 3\<rparr>))) \<noteq> 1/10 \<and>
   4/10 < val (zoom ((handleZoomOut ^^ 25) (initial_presentation\<lparr>zoom := Double 3\<rparr>))) \<and>
   zoom ((handleZoomIn ^^ 6) initial_presentation) \<noteq> js_number (8/5) \<and>
   val (zoom ((handleZoomIn ^^ 6) initial_presentation)) \<noteq> 8/5"
  unfolding twenty_five_zoom_outs six_zoom_ins js_number_def sixteen_tenths tenth by simp

end
